theory Spec2Isabelle
  imports Main "HOL-Library.Char_ord" "HOL-Library.List_Lexorder"
begin

section \<open>Data model: the tables of db.js\<close>

text \<open>
  The habits table (\<^verbatim>\<open>id, name, created_date, deleted, deleted_date, sort_order\<close>).
  \<^verbatim>\<open>deleted\<close> is the 0/1 integer of the schema read as a boolean, \<^verbatim>\<open>deleted_date\<close>
  is nullable. A table is the list of its rows in insertion order.
\<close>

record habit =
  hid :: string
  hname :: string
  created_date :: string
  deleted :: bool
  deleted_date :: "string option"
  sort_order :: int

text \<open>A completions row is the pair \<^verbatim>\<open>(date, habit_id)\<close>, the primary key of the table.\<close>

type_synonym completion = "string \<times> string"

text \<open>An achievements row: \<^verbatim>\<open>(type, habit_id, earned_date)\<close>; \<^verbatim>\<open>habit_id\<close> is nullable.\<close>

record achievement =
  atype :: string
  habit_id :: "string option"
  earned_date :: string

record db =
  habits :: "habit list"
  completions :: "completion list"
  achievements :: "achievement list"

text \<open>
  Dates are text. SQLite compares text bytewise and JavaScript compares strings by code
  unit; both are the lexicographic order on \<^typ>\<open>string\<close> used below (\<open>\<le>\<close>, \<open><\<close>).

  No function of db.js checks a date string before it hands it to the \<^verbatim>\<open>Date\<close>
  constructor or to \<^verbatim>\<open>Number\<close>, and neither of the two raises: a string that is not a
  date makes an invalid \<^verbatim>\<open>Date\<close>, whose fields are \<^verbatim>\<open>NaN\<close>, and the engine computes on
  with \<^verbatim>\<open>NaN\<close>. The model follows it there.

  A pass of the engine ends in one of two ways without a result. \<open>Diverges\<close>: a backward
  walk over the completions runs forever (it does when a completion is dated
  \<^verbatim>\<open>NaN-NaN-NaN\<close>, the text of an invalid date, which is its own predecessor).
  \<open>TypeError\<close>: the exception JavaScript raises on reading a property of \<^verbatim>\<open>undefined\<close>.
  Such a pass has not committed its transaction.
\<close>

datatype error = Diverges | TypeError

text \<open>
  A JavaScript number, as far as the engine computes with the parts of a date: an integer
  (exact in a double) or \<^verbatim>\<open>NaN\<close>.
\<close>

datatype jsnum = NaN | Num int

section \<open>Numbers as decimal text\<close>

definition digit_char :: "nat \<Rightarrow> char" where
  "digit_char n = ''0123456789'' ! (n mod 10)"

fun show_nat :: "nat \<Rightarrow> string" where
  "show_nat n = (if n < 10 then [digit_char n] else show_nat (n div 10) @ [digit_char (n mod 10)])"

declare show_nat.simps [simp del]

text \<open>JavaScript's conversion of an integral number to a string.\<close>

definition show_int :: "int \<Rightarrow> string" where
  "show_int i = (if i < 0 then CHR ''-'' # show_nat (nat (- i)) else show_nat (nat i))"

text \<open>\<^verbatim>\<open>String(v)\<close>, also the conversion of \<^verbatim>\<open>v + '-'\<close>.\<close>

definition jsString :: "jsnum \<Rightarrow> string" where
  "jsString v = (case v of NaN \<Rightarrow> ''NaN'' | Num n \<Rightarrow> show_int n)"

text \<open>\<^verbatim>\<open>s.padStart(2, '0')\<close>\<close>

definition padStart2 :: "string \<Rightarrow> string" where
  "padStart2 s = (if length s < 2 then replicate (2 - length s) CHR ''0'' @ s else s)"

text \<open>\<^verbatim>\<open>String(n).padStart(2, '0')\<close>\<close>

definition pad2 :: "int \<Rightarrow> string" where
  "pad2 n = padStart2 (show_int n)"

text \<open>The value of a decimal digit; \<open>None\<close> for any other character.\<close>

definition digit_val :: "char \<Rightarrow> nat option" where
  "digit_val c = map_of (zip ''0123456789'' [0, 1, 2, 3, 4, 5, 6, 7, 8, 9]) c"

fun digits_acc :: "string \<Rightarrow> nat \<Rightarrow> nat option" where
  "digits_acc [] a = Some a"
| "digits_acc (c # cs) a =
    (case digit_val c of None \<Rightarrow> None | Some v \<Rightarrow> digits_acc cs (10 * a + v))"

text \<open>The value of a non-empty string of decimal digits; \<open>None\<close> for any other string.\<close>

definition num :: "string \<Rightarrow> int option" where
  "num s = (if s = [] then None else map_option int (digits_acc s 0))"

text \<open>
  \<^verbatim>\<open>Number(s)\<close> on a part of a date string: the empty string is 0; an optional sign and
  decimal digits are that integer (\<^verbatim>\<open>Number("05") = 5\<close>), as long as it is at most
  9007199254740992, the 53rd power of 2, up to which a double holds every integer exactly;
  a string with any other character is \<^verbatim>\<open>NaN\<close>. JavaScript reads more strings as numbers
  (white space around the digits, a fraction, an exponent, a radix prefix, \<^verbatim>\<open>Infinity\<close>,
  and larger integers, which it rounds); the model does not follow these and reads them
  as \<^verbatim>\<open>NaN\<close> too.
\<close>

definition jsNumber :: "string \<Rightarrow> jsnum" where
  "jsNumber s =
    (if s = [] then Num 0
     else
       let neg = (hd s = CHR ''-'');
           ds = (if hd s = CHR ''-'' \<or> hd s = CHR ''+'' then tl s else s)
       in case num ds of
            None \<Rightarrow> NaN
          | Some n \<Rightarrow> if n \<le> 9007199254740992 then Num (if neg then - n else n) else NaN)"

text \<open>\<^verbatim>\<open>v - k\<close>\<close>

definition jsMinus :: "jsnum \<Rightarrow> int \<Rightarrow> jsnum" where
  "jsMinus v k = (case v of NaN \<Rightarrow> NaN | Num n \<Rightarrow> Num (n - k))"

text \<open>\<^verbatim>\<open>d <= days\<close> for the counter \<open>d\<close> of a loop: false when \<open>days\<close> is \<^verbatim>\<open>NaN\<close>.\<close>

definition jsLe :: "int \<Rightarrow> jsnum \<Rightarrow> bool" where
  "jsLe d days = (case days of NaN \<Rightarrow> False | Num n \<Rightarrow> d \<le> n)"

text \<open>\<^verbatim>\<open>s.split(c)\<close>: the parts of \<open>s\<close> between the occurrences of \<open>c\<close>, at least one part.\<close>

fun splitOn :: "char \<Rightarrow> string \<Rightarrow> string list" where
  "splitOn c [] = [[]]"
| "splitOn c (x # xs) =
    (if x = c then [] # splitOn c xs
     else (case splitOn c xs of [] \<Rightarrow> [[x]] | p # ps \<Rightarrow> (x # p) # ps))"

section \<open>Calendar utilities\<close>

definition leap :: "int \<Rightarrow> bool" where
  "leap y = (y mod 4 = 0 \<and> (y mod 100 \<noteq> 0 \<or> y mod 400 = 0))"

text \<open>Days of month \<open>m\<close> (1 to 12) of the Gregorian year \<open>y\<close>.\<close>

definition dim :: "int \<Rightarrow> int \<Rightarrow> int" where
  "dim y m =
    (if m = 2 then (if leap y then 29 else 28)
     else if m = 4 \<or> m = 6 \<or> m = 9 \<or> m = 11 then 30 else 31)"

type_synonym ymd = "int \<times> int \<times> int"

definition valid_ymd :: "ymd \<Rightarrow> bool" where
  "valid_ymd x = (case x of (y, m, d) \<Rightarrow> 1 \<le> m \<and> m \<le> 12 \<and> 1 \<le> d \<and> d \<le> dim y m)"

definition next_day :: "ymd \<Rightarrow> ymd" where
  "next_day x = (case x of (y, m, d) \<Rightarrow>
     if d < dim y m then (y, m, d + 1) else if m < 12 then (y, m + 1, 1) else (y + 1, 1, 1))"

definition prev_day :: "ymd \<Rightarrow> ymd" where
  "prev_day x = (case x of (y, m, d) \<Rightarrow>
     if 1 < d then (y, m, d - 1) else if 1 < m then (y, m - 1, dim y (m - 1)) else (y - 1, 12, 31))"

text \<open>
  \<^verbatim>\<open>d.setDate(d.getDate() + days)\<close>: the calendar day \<open>days\<close> days later (earlier when
  negative), one day at a time.
\<close>

function shift_ymd :: "ymd \<Rightarrow> int \<Rightarrow> ymd" where
  "shift_ymd x k =
    (if k = 0 then x
     else if 0 < k then shift_ymd (next_day x) (k - 1)
     else shift_ymd (prev_day x) (k + 1))"
  by pat_completeness auto
termination
  by (relation "measure (\<lambda>(x, k). nat \<bar>k\<bar>)") auto

declare shift_ymd.simps [simp del]

text \<open>The order of calendar days.\<close>

definition ymd_le :: "ymd \<Rightarrow> ymd \<Rightarrow> bool" where
  "ymd_le a b = (case a of (y, m, d) \<Rightarrow> case b of (y', m', d') \<Rightarrow>
     y < y' \<or> y = y' \<and> (m < m' \<or> m = m' \<and> d \<le> d'))"

text \<open>
  A \<^verbatim>\<open>Date\<close> holds a time within 100,000,000 days of 1970-01-01, that is from
  \<^verbatim>\<open>-271821-04-20\<close> to \<^verbatim>\<open>+275760-09-13\<close> at 00:00 UTC, and is invalid beyond. The model
  takes the local time zone of the host to be UTC: \<open>noonInRange\<close> for 12:00 of a day,
  \<open>midnightInRange\<close> for 00:00.
\<close>

definition noonInRange :: "ymd \<Rightarrow> bool" where
  "noonInRange x = (ymd_le (- 271821, 4, 20) x \<and> ymd_le x (275760, 9, 12))"

definition midnightInRange :: "ymd \<Rightarrow> bool" where
  "midnightInRange x = (ymd_le (- 271821, 4, 20) x \<and> ymd_le x (275760, 9, 13))"

text \<open>
  The year of a date-time string: four digits, or a sign and six digits (\<^verbatim>\<open>-000000\<close> is
  not a year); with it, the rest of the string.
\<close>

definition parseYear :: "string \<Rightarrow> (int \<times> string) option" where
  "parseYear s =
    (if s \<noteq> [] \<and> (hd s = CHR ''+'' \<or> hd s = CHR ''-'') then
       (if 7 \<le> length s then
          (case num (take 6 (tl s)) of
             None \<Rightarrow> None
           | Some y \<Rightarrow>
               if hd s = CHR ''-'' then (if y = 0 then None else Some (- y, drop 7 s))
               else Some (y, drop 7 s))
        else None)
     else if 4 \<le> length s then
       (case num (take 4 s) of None \<Rightarrow> None | Some y \<Rightarrow> Some (y, drop 4 s))
     else None)"

text \<open>
  What follows the year: nothing, \<^verbatim>\<open>-MM\<close> or \<^verbatim>\<open>-MM-DD\<close>, with a month from 01 to 12 and
  a day from 01 to 31; a missing month or day is 1.
\<close>

definition parseMonthDay :: "string \<Rightarrow> (int \<times> int) option" where
  "parseMonthDay r =
    (if r = [] then Some (1, 1)
     else if length r = 3 \<and> r ! 0 = CHR ''-'' then
       (case num (drop 1 r) of
          None \<Rightarrow> None
        | Some m \<Rightarrow> if 1 \<le> m \<and> m \<le> 12 then Some (m, 1) else None)
     else if length r = 6 \<and> r ! 0 = CHR ''-'' \<and> r ! 3 = CHR ''-'' then
       (case (num (take 2 (drop 1 r)), num (drop 4 r)) of
          (Some m, Some d) \<Rightarrow>
            if 1 \<le> m \<and> m \<le> 12 \<and> 1 \<le> d \<and> d \<le> 31 then Some (m, d) else None
        | _ \<Rightarrow> None)
     else None)"

text \<open>
  A day from 29 to 31 that the month does not have is carried into the next month
  (\<^verbatim>\<open>2024-02-30\<close> is the first of March).
\<close>

definition carryDay :: "ymd \<Rightarrow> ymd" where
  "carryDay x = (case x of (y, m, d) \<Rightarrow> if d \<le> dim y m then (y, m, d) else (y, m + 1, d - dim y m))"

text \<open>
  \<^verbatim>\<open>new Date(dateStr + 'T12:00:00')\<close>: the calendar day of the date, \<open>None\<close> for an invalid
  date. The constructor accepts the date-time format of ECMAScript, here a date
  \<^verbatim>\<open>YYYY\<close>, \<^verbatim>\<open>YYYY-MM\<close> or \<^verbatim>\<open>YYYY-MM-DD\<close> before the appended time, the year in four
  digits or, with a sign, in six. For a string outside the format the standard leaves the
  result to the host, which may guess a date; the model takes every such string as
  invalid.
\<close>

definition parseDate :: "string \<Rightarrow> ymd option" where
  "parseDate s =
    (case parseYear s of
       None \<Rightarrow> None
     | Some (y, r) \<Rightarrow>
         (case parseMonthDay r of
            None \<Rightarrow> None
          | Some (m, d) \<Rightarrow>
              let x = carryDay (y, m, d) in if noonInRange x then Some x else None))"

text \<open>
  \<^verbatim>\<open>d.getFullYear() + '-' + String(d.getMonth() + 1).padStart(2, '0') + '-' +
  String(d.getDate()).padStart(2, '0')\<close>: the year is not padded.
\<close>

definition formatDate :: "ymd \<Rightarrow> string" where
  "formatDate x = (case x of (y, m, d) \<Rightarrow> show_int y @ ''-'' @ pad2 m @ ''-'' @ pad2 d)"

text \<open>
  \<^verbatim>\<open>shiftDateStr\<close>, and the local \<^verbatim>\<open>shiftDate\<close> of \<^verbatim>\<open>getStreaks\<close>, which has the same
  body. The three fields of an invalid date are \<^verbatim>\<open>NaN\<close>, and \<^verbatim>\<open>setDate\<close> leaves an invalid
  date invalid and makes one of a date it moves out of the range.
\<close>

definition shiftDateStr :: "string \<Rightarrow> int \<Rightarrow> string" where
  "shiftDateStr dateStr days =
    (case parseDate dateStr of
       None \<Rightarrow> ''NaN-NaN-NaN''
     | Some x \<Rightarrow>
         let x' = shift_ymd x days
         in if noonInRange x' then formatDate x' else ''NaN-NaN-NaN'')"

text \<open>
  \<^verbatim>\<open>new Date(year, month, 0).getDate()\<close>: day 0 of the month with index \<open>month\<close> is the last
  day of the month before it, that is of month \<open>month\<close> counted from 1, for any integer
  (month 0 is December of the year before). The constructor reads a year from 0 to 99
  as 1900 plus that year. The result is \<^verbatim>\<open>NaN\<close> when an argument is \<^verbatim>\<open>NaN\<close> or the day is
  out of the range of \<^verbatim>\<open>Date\<close>.
\<close>

definition daysInMonth :: "jsnum \<Rightarrow> jsnum \<Rightarrow> jsnum" where
  "daysInMonth year month =
    (case year of
       NaN \<Rightarrow> NaN
     | Num y \<Rightarrow>
         (case month of
            NaN \<Rightarrow> NaN
          | Num m \<Rightarrow>
              let full = (if 0 \<le> y \<and> y \<le> 99 then 1900 + y else y);
                  months = full * 12 + m - 1;
                  y' = months div 12;
                  m' = months mod 12 + 1
              in if midnightInRange (y', m', dim y' m') then Num (dim y' m') else NaN))"

section \<open>Habit visibility\<close>

text \<open>
  \<^verbatim>\<open>WHERE NOT (deleted = 1 AND deleted_date <= ?)\<close>. SQL keeps a row only when the condition
  is true: for a deleted habit whose \<^verbatim>\<open>deleted_date\<close> is NULL the comparison, the
  conjunction and the negation are all NULL, and the row is dropped.
\<close>

definition visibleOn :: "habit \<Rightarrow> string \<Rightarrow> bool" where
  "visibleOn h date =
    (if deleted h then (case deleted_date h of None \<Rightarrow> False | Some dd \<Rightarrow> \<not> dd \<le> date)
     else True)"

text \<open>\<^verbatim>\<open>WHERE created_date <= ? AND NOT (deleted = 1 AND deleted_date <= ?)\<close>\<close>

definition activeOn :: "habit \<Rightarrow> string \<Rightarrow> bool" where
  "activeOn h date = (created_date h \<le> date \<and> visibleOn h date)"

section \<open>Day view and completions\<close>

record day_row =
  row_id :: string
  row_name :: string
  completed :: bool
  row_deleted :: bool

text \<open>
  The left join gives one row for each completion of the habit on the date, and one row
  with \<^verbatim>\<open>completed = 0\<close> when there is none; \<^verbatim>\<open>ORDER BY sort_order\<close> is a stable sort
  of the table's rows.
\<close>

definition getDayView :: "string \<Rightarrow> db \<Rightarrow> day_row list" where
  "getDayView date s =
    concat (map (\<lambda>h.
        let matches = filter (\<lambda>c. snd c = hid h \<and> fst c = date) (completions s) in
        if matches = []
        then [\<lparr>row_id = hid h, row_name = hname h, completed = False, row_deleted = deleted h\<rparr>]
        else map (\<lambda>c. \<lparr>row_id = hid h, row_name = hname h, completed = True,
                         row_deleted = deleted h\<rparr>) matches)
      (sort_key sort_order (filter (\<lambda>h. visibleOn h date) (habits s))))"

text \<open>
  \<^verbatim>\<open>INSERT OR IGNORE INTO completions\<close> skips the row when the primary key
  \<^verbatim>\<open>(date, habit_id)\<close> is already there; \<^verbatim>\<open>DELETE\<close> removes every row with that key.
\<close>

definition toggleCompletion :: "string \<Rightarrow> string \<Rightarrow> bool \<Rightarrow> db \<Rightarrow> db" where
  "toggleCompletion date habitId completed' s =
    (if completed' then
       (if (date, habitId) \<in> set (completions s) then s
        else s\<lparr>completions := completions s @ [(date, habitId)]\<rparr>)
     else s\<lparr>completions := filter (\<lambda>c. \<not> (fst c = date \<and> snd c = habitId)) (completions s)\<rparr>)"

section \<open>Streaks\<close>

text \<open>
  The backward walk of \<^verbatim>\<open>getStreaks\<close> and of \<^verbatim>\<open>checkAchievements\<close>:
  \<^verbatim>\<open>while (checkCompletion.get(checkDay, id)) { streak++; checkDay = shiftDateStr(checkDay, -1); }\<close>.
  The loop has no bound: \<open>None\<close> is the walk that never ends.
\<close>

partial_function (option) countBack :: "completion list \<Rightarrow> string \<Rightarrow> string \<Rightarrow> nat \<Rightarrow> nat option" where
  "countBack cs habitId checkDay streak =
    (if (checkDay, habitId) \<in> set cs
     then countBack cs habitId (shiftDateStr checkDay (- 1)) (streak + 1)
     else Some streak)"

record streak_row =
  sid :: string
  sname :: string
  streak :: nat

text \<open>
  The body of the loop over the habits in \<^verbatim>\<open>getStreaks\<close>: \<open>Inr None\<close> when the habit adds
  no entry (the \<^verbatim>\<open>continue\<close>, or a streak of 0).
\<close>

definition habitStreak :: "completion list \<Rightarrow> bool \<Rightarrow> string \<Rightarrow> habit \<Rightarrow> error + streak_row option" where
  "habitStreak cs isToday date h =
    (let doneOnDate = ((date, hid h) \<in> set cs);
         entry = (\<lambda>r. case r of
             None \<Rightarrow> Inl Diverges
           | Some n \<Rightarrow> Inr (if 0 < n then Some \<lparr>sid = hid h, sname = hname h, streak = n\<rparr> else None))
     in if doneOnDate then entry (countBack cs (hid h) date 0)
        else if isToday then entry (countBack cs (hid h) (shiftDateStr date (- 1)) 0)
        else Inr None)"

fun streakLoop :: "completion list \<Rightarrow> bool \<Rightarrow> string \<Rightarrow> habit list \<Rightarrow> streak_row list
    \<Rightarrow> error + streak_row list" where
  "streakLoop cs isToday date [] results = Inr results"
| "streakLoop cs isToday date (h # hs) results =
    (case habitStreak cs isToday date h of
       Inl e \<Rightarrow> Inl e
     | Inr None \<Rightarrow> streakLoop cs isToday date hs results
     | Inr (Some r) \<Rightarrow> streakLoop cs isToday date hs (results @ [r]))"

text \<open>
  \<open>today\<close> is the value of \<^verbatim>\<open>new Date().toISOString().slice(0, 10)\<close>, read from the clock
  in the source. \<^verbatim>\<open>results.sort((a, b) => b.streak - a.streak)\<close> is a stable sort, longest
  streak first.
\<close>

definition getStreaks :: "string \<Rightarrow> string \<Rightarrow> db \<Rightarrow> error + streak_row list" where
  "getStreaks today date s =
    (let isToday = (date = today);
         hs = sort_key sort_order (filter (\<lambda>h. visibleOn h date) (habits s))
     in case streakLoop (completions s) isToday date hs [] of
          Inl e \<Rightarrow> Inl e
        | Inr results \<Rightarrow> Inr (sort_key (\<lambda>r. - int (streak r)) results))"

section \<open>Achievements\<close>

text \<open>
  \<^verbatim>\<open>INSERT OR IGNORE INTO achievements (type, habit_id, earned_date) VALUES (?, ?, ?)\<close>
  under \<^verbatim>\<open>UNIQUE(type, habit_id, earned_date)\<close>. SQLite skips the row only when the
  constraint would be violated, and for a UNIQUE constraint it takes NULL as distinct from
  every value, another NULL included: a row whose \<^verbatim>\<open>habit_id\<close> is NULL never conflicts
  and is always inserted.
\<close>

definition insertAchievement :: "string \<Rightarrow> string option \<Rightarrow> string \<Rightarrow> db \<Rightarrow> db" where
  "insertAchievement type habitId earnedDate s =
    (let row = \<lparr>atype = type, habit_id = habitId, earned_date = earnedDate\<rparr>
     in if habitId \<noteq> None \<and> row \<in> set (achievements s) then s
        else s\<lparr>achievements := achievements s @ [row]\<rparr>)"

text \<open>\<^verbatim>\<open>DELETE FROM achievements WHERE ...\<close>\<close>

definition deleteAchievements :: "(achievement \<Rightarrow> bool) \<Rightarrow> db \<Rightarrow> db" where
  "deleteAchievements cond s = s\<lparr>achievements := filter (\<lambda>a. \<not> cond a) (achievements s)\<rparr>"

definition streakTypes :: "(string \<times> int) list" where
  "streakTypes = [(''streak_7'', 7), (''streak_14'', 14), (''streak_21'', 21)]"

text \<open>
  The two loops of \<^verbatim>\<open>removeInvalidAchievements\<close> over the streak types. \<open>habitId\<close> is
  \<open>Some h\<close> for \<^verbatim>\<open>habit_id = ?\<close> and \<open>None\<close> for \<^verbatim>\<open>habit_id IS NULL\<close>.
\<close>

fun removeStreaks :: "string \<Rightarrow> string option \<Rightarrow> (string \<times> int) list \<Rightarrow> db \<Rightarrow> db" where
  "removeStreaks date habitId [] s = s"
| "removeStreaks date habitId ((type, n) # rest) s =
    (let endDate = shiftDateStr date (n - 1)
     in removeStreaks date habitId rest
          (deleteAchievements (\<lambda>a. atype a = type \<and> habit_id a = habitId
             \<and> date \<le> earned_date a \<and> earned_date a \<le> endDate) s))"

text \<open>The invalidation pass. Every statement of it is a \<^verbatim>\<open>DELETE\<close>, and it always returns.\<close>

definition removeInvalidAchievements :: "string \<Rightarrow> string \<Rightarrow> db \<Rightarrow> db" where
  "removeInvalidAchievements date habitId s =
    (let s1 = deleteAchievements (\<lambda>a. atype a = ''perfect_day'' \<and> habit_id a = None
                \<and> earned_date a = date) s;
         s2 = removeStreaks date (Some habitId) streakTypes s1;
         s3 = removeStreaks date None streakTypes s2;
         monthStr = take 7 date @ ''-01'';
         s4 = deleteAchievements (\<lambda>a. atype a = ''perfect_month''
                \<and> habit_id a = Some habitId \<and> earned_date a = monthStr) s3
     in deleteAchievements (\<lambda>a. atype a = ''perfect_month''
                \<and> habit_id a = None \<and> earned_date a = monthStr) s4)"

text \<open>
  A day counts for the global awards when its set of active habits is not empty and each
  of them has a completion on it (the two \<^verbatim>\<open>break\<close> tests of the global loops).
\<close>

definition dayComplete :: "db \<Rightarrow> string \<Rightarrow> bool" where
  "dayComplete s checkDay =
    (let dayHabits = filter (\<lambda>h. activeOn h checkDay) (habits s)
     in if dayHabits = [] then False
        else list_all (\<lambda>h. (checkDay, hid h) \<in> set (completions s)) dayHabits)"

text \<open>The per-habit streak awards of \<^verbatim>\<open>checkAchievements\<close>.\<close>

fun awardStreaks :: "string \<Rightarrow> string list \<Rightarrow> db \<Rightarrow> error + db" where
  "awardStreaks date [] s = Inr s"
| "awardStreaks date (i # ids) s =
    (case countBack (completions s) i date 0 of
       None \<Rightarrow> Inl Diverges
     | Some n \<Rightarrow>
         let s1 = (if 7 \<le> n then insertAchievement ''streak_7'' (Some i) date s else s);
             s2 = (if 14 \<le> n then insertAchievement ''streak_14'' (Some i) date s1 else s1);
             s3 = (if 21 \<le> n then insertAchievement ''streak_21'' (Some i) date s2 else s2)
         in awardStreaks date ids s3)"

text \<open>\<^verbatim>\<open>for (let i = 0; i < threshold; i++)\<close> of the global streaks, from \<open>i\<close> on.\<close>

function allStreak :: "db \<Rightarrow> string \<Rightarrow> nat \<Rightarrow> nat \<Rightarrow> bool" where
  "allStreak s date threshold i =
    (if i < threshold then
       (if dayComplete s (shiftDateStr date (- int i)) then allStreak s date threshold (i + 1)
        else False)
     else True)"
  by pat_completeness auto
termination
  by (relation "measure (\<lambda>(s, date, threshold, i). threshold - i)") auto

declare allStreak.simps [simp del]

fun awardGlobalStreaks :: "string \<Rightarrow> nat list \<Rightarrow> db \<Rightarrow> db" where
  "awardGlobalStreaks date [] s = s"
| "awardGlobalStreaks date (threshold # rest) s =
    awardGlobalStreaks date rest
      (if allStreak s date threshold 0
       then insertAchievement (''streak_'' @ show_nat threshold) None date s else s)"

text \<open>
  \<^verbatim>\<open>for (let d = 1; d <= days; d++)\<close> of the perfect month, from \<open>d\<close> on: \<open>dayDone dayStr\<close> is the
  test of the body, whose failure is the \<^verbatim>\<open>break\<close>. When \<open>days\<close> is \<^verbatim>\<open>NaN\<close> the body never
  runs and the month counts as perfect.
\<close>

function monthLoop :: "(string \<Rightarrow> bool) \<Rightarrow> string \<Rightarrow> jsnum \<Rightarrow> int \<Rightarrow> bool" where
  "monthLoop dayDone monthStr days d =
    (if jsLe d days then
       (if dayDone (monthStr @ ''-'' @ pad2 d) then monthLoop dayDone monthStr days (d + 1) else False)
     else True)"
  by pat_completeness auto
termination
  by (relation "measure (\<lambda>(dayDone, monthStr, days, d).
        case days of NaN \<Rightarrow> 0 | Num n \<Rightarrow> nat (n + 1 - d))")
    (auto simp add: jsLe_def split: jsnum.splits)

declare monthLoop.simps [simp del]

fun awardHabitMonths :: "string \<Rightarrow> string \<Rightarrow> jsnum \<Rightarrow> string list \<Rightarrow> db \<Rightarrow> error + db" where
  "awardHabitMonths monthStr firstOfMonth days [] s = Inr s"
| "awardHabitMonths monthStr firstOfMonth days (i # ids) s =
    (case find (\<lambda>h. hid h = i) (habits s) of
       None \<Rightarrow> Inl TypeError
     | Some habitRow \<Rightarrow>
         if firstOfMonth < created_date habitRow
         then awardHabitMonths monthStr firstOfMonth days ids s
         else awardHabitMonths monthStr firstOfMonth days ids
           (if monthLoop (\<lambda>dayStr. (dayStr, i) \<in> set (completions s)) monthStr days 1
            then insertAchievement ''perfect_month'' (Some i) firstOfMonth s else s))"

text \<open>
  \<^verbatim>\<open>const [year, month] = date.split('-').map(Number)\<close>. A date with no \<^verbatim>\<open>-\<close> has one
  part, and \<^verbatim>\<open>month\<close> is \<^verbatim>\<open>undefined\<close>; in the two places the engine uses it,
  \<^verbatim>\<open>month === 1\<close> and \<^verbatim>\<open>month - 1\<close>, \<^verbatim>\<open>undefined\<close> gives what \<^verbatim>\<open>NaN\<close> gives, so it is
  \<open>NaN\<close> here.
\<close>

definition yearMonth :: "string \<Rightarrow> jsnum \<times> jsnum" where
  "yearMonth date =
    (case splitOn CHR ''-'' date of
       [] \<Rightarrow> (NaN, NaN)
     | [y] \<Rightarrow> (jsNumber y, NaN)
     | y # m # rest \<Rightarrow> (jsNumber y, jsNumber m))"

text \<open>
  The perfect month of \<^verbatim>\<open>checkAchievements\<close>: the month before the month of \<open>date\<close>, as
  far as \<open>date\<close> has one.
\<close>

definition awardPerfectMonth :: "string \<Rightarrow> string list \<Rightarrow> db \<Rightarrow> error + db" where
  "awardPerfectMonth date habitIds s =
    (case yearMonth date of (year, month) \<Rightarrow>
       let checkYear = (if month = Num 1 then jsMinus year 1 else year);
           checkMonth = (if month = Num 1 then Num 12 else jsMinus month 1);
           days = daysInMonth checkYear checkMonth;
           monthStr = jsString checkYear @ ''-'' @ padStart2 (jsString checkMonth);
           firstOfMonth = monthStr @ ''-01''
       in case awardHabitMonths monthStr firstOfMonth days habitIds s of
            Inl e \<Rightarrow> Inl e
          | Inr s4 \<Rightarrow>
              Inr (if monthLoop (dayComplete s4) monthStr days 1
                   then insertAchievement ''perfect_month'' None firstOfMonth s4
                   else s4))"

text \<open>The perfect day of \<^verbatim>\<open>checkAchievements\<close>.\<close>

definition awardPerfectDay :: "string \<Rightarrow> string list \<Rightarrow> db \<Rightarrow> db" where
  "awardPerfectDay date habitIds s =
    (let allDone = list_all (\<lambda>i. (date, i) \<in> set (completions s)) habitIds
     in if allDone then insertAchievement ''perfect_day'' None date s else s)"

text \<open>
  The award pass. It returns at once when no habit is active on \<open>date\<close>; otherwise it runs
  the perfect day, the per-habit streaks, the global streaks and the perfect month, in
  this order, in one transaction.
\<close>

definition checkAchievements :: "string \<Rightarrow> db \<Rightarrow> error + db" where
  "checkAchievements date s =
    (let hs = filter (\<lambda>h. activeOn h date) (habits s) in
     if hs = [] then Inr s
     else
       let habitIds = map hid hs
       in case awardStreaks date habitIds (awardPerfectDay date habitIds s) of
            Inl e \<Rightarrow> Inl e
          | Inr s2 \<Rightarrow> awardPerfectMonth date habitIds (awardGlobalStreaks date [7, 14, 21] s2))"


section \<open>Predicates of the properties\<close>

text \<open>Every date of the completions table is a date for the \<^verbatim>\<open>Date\<close> constructor.\<close>

definition datedCompletions :: "completion list \<Rightarrow> bool" where
  "datedCompletions cs = list_all (\<lambda>c. parseDate (fst c) \<noteq> None) cs"

text \<open>
  A date in the form \<^verbatim>\<open>YYYY-MM-DD\<close>, the form of the dates of the application: a year of
  four digits, a month from 01 to 12 and a day from 01 to 31.
\<close>

definition isoDate :: "string \<Rightarrow> bool" where
  "isoDate s =
    (length s = 10 \<and> s ! 4 = CHR ''-'' \<and> s ! 7 = CHR ''-'' \<and>
     (case (num (take 4 s), num (take 2 (drop 5 s)), num (drop 8 s)) of
        (Some y, Some m, Some d) \<Rightarrow> 1 \<le> m \<and> m \<le> 12 \<and> 1 \<le> d \<and> d \<le> 31
      | _ \<Rightarrow> False))"

text \<open>An order-preserving key of a calendar day, for the end of the backward walk.\<close>

definition day_key :: "ymd \<Rightarrow> int" where
  "day_key x = (case x of (y, m, d) \<Rightarrow> (y * 12 + (m - 1)) * 31 + (d - 1))"

text \<open>
  The number of completions of the habit on or before a day: each step of the backward walk
  leaves a completion behind, so this number decreases.
\<close>

definition walk_measure :: "completion list \<Rightarrow> string \<Rightarrow> string \<Rightarrow> nat" where
  "walk_measure cs habitId day =
    (case parseDate day of
       None \<Rightarrow> 0
     | Some x \<Rightarrow> length (filter (\<lambda>c. snd c = habitId \<and>
         (case parseDate (fst c) of None \<Rightarrow> False | Some z \<Rightarrow> day_key z \<le> day_key x)) cs))"

text \<open>The rows one loop of the invalidation pass deletes.\<close>

definition streakHit :: "string \<Rightarrow> string option \<Rightarrow> (string \<times> int) list \<Rightarrow> achievement \<Rightarrow> bool" where
  "streakHit date i ts a =
    list_ex (\<lambda>(type, n). atype a = type \<and> habit_id a = i \<and> date \<le> earned_date a
          \<and> earned_date a \<le> shiftDateStr date (n - 1)) ts"

text \<open>The rows the invalidation pass deletes.\<close>

definition invalidated :: "string \<Rightarrow> string \<Rightarrow> achievement \<Rightarrow> bool" where
  "invalidated date habitId a =
    (atype a = ''perfect_day'' \<and> habit_id a = None \<and> earned_date a = date
     \<or> streakHit date (Some habitId) streakTypes a
     \<or> streakHit date None streakTypes a
     \<or> atype a = ''perfect_month'' \<and> habit_id a = Some habitId \<and> earned_date a = take 7 date @ ''-01''
     \<or> atype a = ''perfect_month'' \<and> habit_id a = None \<and> earned_date a = take 7 date @ ''-01'')"

text \<open>
  The text \<^verbatim>\<open>monthStr\<close> the award pass computes from its date: the month before the
  month of the date, as far as the date has one.
\<close>

definition prevMonthStr :: "string \<Rightarrow> string" where
  "prevMonthStr date =
    (case yearMonth date of (year, month) \<Rightarrow>
       jsString (if month = Num 1 then jsMinus year 1 else year) @ ''-'' @
       padStart2 (jsString (if month = Num 1 then Num 12 else jsMinus month 1)))"

text \<open>The integer a string is the decimal text of (an optional minus sign, then digits).\<close>

definition read_int :: "string \<Rightarrow> int option" where
  "read_int s =
    (case s of
       [] \<Rightarrow> None
     | c # cs \<Rightarrow> if c = CHR ''-'' then map_option uminus (num cs) else num s)"

text \<open>
  The string is the first day of a calendar month, in the form the engine writes dates:
  the year, a month from 01 to 12, and the day 01.
\<close>

definition isFirstOfMonth :: "string \<Rightarrow> bool" where
  "isFirstOfMonth e =
    (case read_int (take (length e - 6) e) of
       None \<Rightarrow> False
     | Some y \<Rightarrow> list_ex (\<lambda>m. e = show_int y @ ''-'' @ pad2 m @ ''-01'') [1, 2, 3, 4, 5, 6, 7, 8, 9, 10, 11, 12])"

text \<open>Every perfect month of the achievements table is dated the first day of a month.\<close>

definition monthInvariant :: "db \<Rightarrow> bool" where
  "monthInvariant s =
    list_all (\<lambda>a. atype a = ''perfect_month'' \<longrightarrow> isFirstOfMonth (earned_date a)) (achievements s)"

text \<open>
  The second state has the tables of the first and, after its achievements, only global
  rows that the first already holds.
\<close>

definition globalRowsAdded :: "db \<Rightarrow> db \<Rightarrow> bool" where
  "globalRowsAdded t t' =
    (habits t' = habits t \<and> completions t' = completions t
     \<and> take (length (achievements t)) (achievements t') = achievements t
     \<and> list_all (\<lambda>a. habit_id a = None \<and> a \<in> set (achievements t))
          (drop (length (achievements t)) (achievements t')))"

section \<open>Concrete tables\<close>

text \<open>
  The scenario of the specification: habits A and B created on 2024-01-01, both completed
  on every day from 2024-01-01 to 2024-01-07.
\<close>

definition habitA :: habit where
  "habitA = \<lparr>hid = ''A'', hname = ''Run'', created_date = ''2024-01-01'', deleted = False,
              deleted_date = None, sort_order = 0\<rparr>"

definition habitB :: habit where
  "habitB = \<lparr>hid = ''B'', hname = ''Read'', created_date = ''2024-01-01'', deleted = False,
              deleted_date = None, sort_order = 1\<rparr>"

definition weekCompletions :: "completion list" where
  "weekCompletions =
    [(''2024-01-01'', ''A''), (''2024-01-01'', ''B''), (''2024-01-02'', ''A''), (''2024-01-02'', ''B''),
     (''2024-01-03'', ''A''), (''2024-01-03'', ''B''), (''2024-01-04'', ''A''), (''2024-01-04'', ''B''),
     (''2024-01-05'', ''A''), (''2024-01-05'', ''B''), (''2024-01-06'', ''A''), (''2024-01-06'', ''B''),
     (''2024-01-07'', ''A''), (''2024-01-07'', ''B'')]"

definition weekAwards :: "achievement list" where
  "weekAwards =
    [\<lparr>atype = ''perfect_day'', habit_id = None, earned_date = ''2024-01-07''\<rparr>,
     \<lparr>atype = ''streak_7'', habit_id = Some ''A'', earned_date = ''2024-01-07''\<rparr>,
     \<lparr>atype = ''streak_7'', habit_id = Some ''B'', earned_date = ''2024-01-07''\<rparr>,
     \<lparr>atype = ''streak_7'', habit_id = None, earned_date = ''2024-01-07''\<rparr>]"

text \<open>
  On 2024-03-10, habit A is completed on the two days before and not on the day itself,
  and habit B on all three days.
\<close>

definition marchCompletions :: "completion list" where
  "marchCompletions =
    [(''2024-03-08'', ''A''), (''2024-03-08'', ''B''), (''2024-03-09'', ''A''), (''2024-03-09'', ''B''),
     (''2024-03-10'', ''B'')]"

text \<open>
  February 2024: habit C, created in January, is completed on every day of the month;
  habit D, created on the 5th, is completed on every day from the 5th on.
\<close>

definition habitC :: habit where
  "habitC = \<lparr>hid = ''C'', hname = ''Walk'', created_date = ''2024-01-15'', deleted = False,
              deleted_date = None, sort_order = 2\<rparr>"

definition habitD :: habit where
  "habitD = \<lparr>hid = ''D'', hname = ''Write'', created_date = ''2024-02-05'', deleted = False,
              deleted_date = None, sort_order = 3\<rparr>"

definition febCompletions :: "completion list" where
  "febCompletions =
    [(''2024-02-01'', ''C''), (''2024-02-02'', ''C''), (''2024-02-03'', ''C''),
     (''2024-02-04'', ''C''), (''2024-02-05'', ''C''), (''2024-02-05'', ''D''),
     (''2024-02-06'', ''C''), (''2024-02-06'', ''D''), (''2024-02-07'', ''C''),
     (''2024-02-07'', ''D''), (''2024-02-08'', ''C''), (''2024-02-08'', ''D''),
     (''2024-02-09'', ''C''), (''2024-02-09'', ''D''), (''2024-02-10'', ''C''),
     (''2024-02-10'', ''D''), (''2024-02-11'', ''C''), (''2024-02-11'', ''D''),
     (''2024-02-12'', ''C''), (''2024-02-12'', ''D''), (''2024-02-13'', ''C''),
     (''2024-02-13'', ''D''), (''2024-02-14'', ''C''), (''2024-02-14'', ''D''),
     (''2024-02-15'', ''C''), (''2024-02-15'', ''D''), (''2024-02-16'', ''C''),
     (''2024-02-16'', ''D''), (''2024-02-17'', ''C''), (''2024-02-17'', ''D''),
     (''2024-02-18'', ''C''), (''2024-02-18'', ''D''), (''2024-02-19'', ''C''),
     (''2024-02-19'', ''D''), (''2024-02-20'', ''C''), (''2024-02-20'', ''D''),
     (''2024-02-21'', ''C''), (''2024-02-21'', ''D''), (''2024-02-22'', ''C''),
     (''2024-02-22'', ''D''), (''2024-02-23'', ''C''), (''2024-02-23'', ''D''),
     (''2024-02-24'', ''C''), (''2024-02-24'', ''D''), (''2024-02-25'', ''C''),
     (''2024-02-25'', ''D''), (''2024-02-26'', ''C''), (''2024-02-26'', ''D''),
     (''2024-02-27'', ''C''), (''2024-02-27'', ''D''), (''2024-02-28'', ''C''),
     (''2024-02-28'', ''D''), (''2024-02-29'', ''C''), (''2024-02-29'', ''D'')]"

text \<open>A habit deleted on 2024-01-10.\<close>

definition deletedHabit :: habit where
  "deletedHabit = \<lparr>hid = ''A'', hname = ''Run'', created_date = ''2024-01-01'', deleted = True,
                    deleted_date = Some ''2024-01-10'', sort_order = 0\<rparr>"

section \<open>Reading back a formatted date\<close>

lemma digit_table:
  "zip ''0123456789'' [0, 1, 2, 3, 4, 5, 6, 7, 8, 9] = map (\<lambda>n. (digit_char n, n)) [0 ..< 10]"
  by (simp add: digit_char_def upt_rec)

lemma digit_val_digit_char: "n < 10 \<Longrightarrow> digit_val (digit_char n) = Some n"
proof -
  assume n: "n < 10"
  have keys: "distinct (map fst (zip ''0123456789'' [0, 1, 2, 3, 4, 5, 6, 7, 8, 9 :: nat]))"
    by simp
  have "(digit_char n, n) \<in> set (zip ''0123456789'' [0, 1, 2, 3, 4, 5, 6, 7, 8, 9])"
    unfolding digit_table using n by simp
  with keys show ?thesis
    unfolding digit_val_def by (rule map_of_is_SomeI)
qed

lemma digits_acc_snoc:
  "digits_acc (xs @ [c]) a =
    (case digits_acc xs a of None \<Rightarrow> None
     | Some b \<Rightarrow> (case digit_val c of None \<Rightarrow> None | Some v \<Rightarrow> Some (10 * b + v)))"
  by (induction xs arbitrary: a) (auto split: option.splits)

lemma digits_acc_show_nat: "digits_acc (show_nat n) 0 = Some n"
proof (induction n rule: show_nat.induct)
  case (1 n)
  show ?case
  proof (cases "n < 10")
    case True
    then show ?thesis
      by (subst show_nat.simps) (simp add: digit_val_digit_char)
  next
    case False
    with 1 have "digits_acc (show_nat (n div 10)) 0 = Some (n div 10)" by simp
    with False show ?thesis
      by (subst show_nat.simps) (simp add: digits_acc_snoc digit_val_digit_char)
  qed
qed

lemma show_nat_not_Nil: "show_nat n \<noteq> []"
  by (subst show_nat.simps) simp

lemma num_show_nat: "num (show_nat n) = Some (int n)"
  by (simp add: num_def show_nat_not_Nil digits_acc_show_nat)

lemma digit_val_minus: "digit_val (CHR ''-'') = None"
  by (simp add: digit_val_def)

lemma digit_val_plus: "digit_val (CHR ''+'') = None"
  by (simp add: digit_val_def)

lemma digits_acc_digits: "digits_acc t a = Some v \<Longrightarrow> c \<in> set t \<Longrightarrow> digit_val c \<noteq> None"
  by (induction t arbitrary: a) (auto split: option.splits)

lemma num_digits: "num t = Some v \<Longrightarrow> c \<in> set t \<Longrightarrow> digit_val c \<noteq> None"
  by (auto simp add: num_def dest: digits_acc_digits split: if_splits)

lemma num_no_minus: "num t = Some v \<Longrightarrow> CHR ''-'' \<notin> set t"
  using num_digits digit_val_minus by blast

lemma num_hd_digit: "num t = Some v \<Longrightarrow> t \<noteq> [] \<and> hd t \<noteq> CHR ''-'' \<and> hd t \<noteq> CHR ''+''"
proof -
  assume n: "num t = Some v"
  then have ne: "t \<noteq> []"
    by (auto simp add: num_def split: if_splits)
  then have "hd t \<in> set t"
    by simp
  with n have "digit_val (hd t) \<noteq> None"
    by (rule num_digits)
  with ne show ?thesis
    using digit_val_minus digit_val_plus by metis
qed

lemma num_show_int: "num (show_int i) = Some j \<Longrightarrow> j = i"
  by (auto simp add: show_int_def num_def digit_val_minus digits_acc_show_nat split: if_splits)

lemma length_show_nat_small: "n < 10 \<Longrightarrow> length (show_nat n) = 1"
  by (subst show_nat.simps) simp

lemma length_show_nat_2: "10 \<le> n \<Longrightarrow> n < 100 \<Longrightarrow> length (show_nat n) = 2"
  by (subst show_nat.simps) (simp add: length_show_nat_small)

lemma length_pad2: "0 \<le> n \<Longrightarrow> n < 100 \<Longrightarrow> length (pad2 n) = 2"
  by (cases "n < 10")
    (auto simp add: pad2_def padStart2_def show_int_def length_show_nat_small length_show_nat_2)

lemma num_pad2: "0 \<le> n \<Longrightarrow> n < 100 \<Longrightarrow> num (pad2 n) = Some n"
proof (cases "n < 10")
  case True
  assume "0 \<le> n"
  with True have "pad2 n = CHR ''0'' # show_nat (nat n)"
    by (simp add: pad2_def padStart2_def show_int_def length_show_nat_small)
  then show ?thesis using \<open>0 \<le> n\<close>
    by (simp add: num_def digit_val_def digits_acc_show_nat)
next
  case False
  assume "0 \<le> n" "n < 100"
  with False have "pad2 n = show_nat (nat n)"
    by (simp add: pad2_def padStart2_def show_int_def length_show_nat_2)
  then show ?thesis using \<open>0 \<le> n\<close> by (simp add: num_show_nat)
qed

lemma dim_bounds: "28 \<le> dim y m \<and> dim y m \<le> 31"
  by (simp add: dim_def)

lemma two_chars: "length s = 2 \<Longrightarrow> \<exists>a b. s = [a, b]"
  by (cases s; cases "tl s") auto

lemma parseMonthDay_format:
  assumes "1 \<le> m" and "m \<le> 12" and "1 \<le> d" and "d \<le> 31"
  shows "parseMonthDay (''-'' @ pad2 m @ ''-'' @ pad2 d) = Some (m, d)"
proof -
  from assms have "length (pad2 m) = 2" and "length (pad2 d) = 2"
    by (simp_all add: length_pad2)
  then obtain a b c e where m: "pad2 m = [a, b]" and d: "pad2 d = [c, e]"
    using two_chars by metis
  from assms have "num (pad2 m) = Some m" and "num (pad2 d) = Some d"
    by (simp_all add: num_pad2)
  with m d assms show ?thesis
    by (simp add: parseMonthDay_def)
qed

lemma parseMonthDay_length: "parseMonthDay r \<noteq> None \<Longrightarrow> length r \<le> 6"
  by (auto simp add: parseMonthDay_def split: if_splits)

lemma parseMonthDay_bounds:
  "parseMonthDay r = Some (m, d) \<Longrightarrow> 1 \<le> m \<and> m \<le> 12 \<and> 1 \<le> d \<and> d \<le> 31"
  by (auto simp add: parseMonthDay_def split: if_splits option.splits)

text \<open>
  Digits followed by a part that starts with \<^verbatim>\<open>-\<close> and is at most six characters long:
  a prefix of the whole that is a number and leaves at most six characters is the digits.
\<close>

lemma digits_prefix:
  assumes "num (take k (ds @ CHR ''-'' # r)) = Some w"
    and "length (drop k (ds @ CHR ''-'' # r)) \<le> length (CHR ''-'' # r)"
  shows "k = length ds"
proof -
  have "k \<le> length ds"
  proof (rule ccontr)
    assume "\<not> k \<le> length ds"
    then have "CHR ''-'' \<in> set (take k (ds @ CHR ''-'' # r))"
      by (cases "k - length ds") auto
    with assms(1) show False
      using num_no_minus by blast
  qed
  with assms(2) show ?thesis
    by simp
qed

lemma parseYear_format:
  assumes "parseYear (show_int y @ CHR ''-'' # r) = Some (y', r')" and "length r = 5"
    and "parseMonthDay r' \<noteq> None"
  shows "y' = y \<and> r' = CHR ''-'' # r"
proof (cases "y < 0")
  case False
  let ?ds = "show_nat (nat y)"
  from False have s: "show_int y = ?ds"
    by (simp add: show_int_def)
  have ds: "num ?ds = Some (int (nat y))"
    by (rule num_show_nat)
  from num_hd_digit [OF ds] have hd: "hd (?ds @ CHR ''-'' # r) \<noteq> CHR ''-''"
      "hd (?ds @ CHR ''-'' # r) \<noteq> CHR ''+''"
    by simp_all
  from assms(1) hd obtain w where w: "num (take 4 (?ds @ CHR ''-'' # r)) = Some w"
    and y': "y' = w" and r': "r' = drop 4 (?ds @ CHR ''-'' # r)"
    unfolding s by (auto simp add: parseYear_def split: if_splits option.splits)
  from parseMonthDay_length [OF assms(3)] assms(2) r'
  have "length (drop 4 (?ds @ CHR ''-'' # r)) \<le> length (CHR ''-'' # r)"
    by simp
  with w have k: "4 = length ?ds"
    by (rule digits_prefix)
  with w ds y' r' False show ?thesis
    unfolding s by simp
next
  case True
  let ?ds = "show_nat (nat (- y))"
  from True have s: "show_int y = CHR ''-'' # ?ds"
    by (simp add: show_int_def)
  have ds: "num ?ds = Some (int (nat (- y)))"
    by (rule num_show_nat)
  from assms(1) obtain w where w: "num (take 6 (?ds @ CHR ''-'' # r)) = Some w"
    and y': "y' = - w" and r': "r' = drop 6 (?ds @ CHR ''-'' # r)"
    unfolding s by (auto simp add: parseYear_def split: if_splits option.splits)
  from parseMonthDay_length [OF assms(3)] assms(2) r'
  have "length (drop 6 (?ds @ CHR ''-'' # r)) \<le> length (CHR ''-'' # r)"
    by simp
  with w have k: "6 = length ?ds"
    by (rule digits_prefix)
  with w ds y' r' True show ?thesis
    unfolding s by simp
qed

lemma carryDay_valid: "1 \<le> m \<Longrightarrow> m \<le> 12 \<Longrightarrow> 1 \<le> d \<Longrightarrow> d \<le> 31 \<Longrightarrow> valid_ymd (carryDay (y, m, d))"
  by (auto simp add: carryDay_def valid_ymd_def dim_def)

lemma carryDay_id: "valid_ymd x \<Longrightarrow> carryDay x = x"
  by (cases x) (simp add: carryDay_def valid_ymd_def)

lemma parseDate_valid: "parseDate s = Some x \<Longrightarrow> valid_ymd x"
  by (auto simp add: parseDate_def Let_def carryDay_valid dest!: parseMonthDay_bounds
      split: if_splits option.splits)

lemma parse_format:
  assumes "valid_ymd x" and "parseDate (formatDate x) = Some x'"
  shows "x' = x"
proof -
  obtain y m d where x: "x = (y, m, d)" by (cases x)
  from assms(1) x have m: "1 \<le> m" "m \<le> 12" and d: "1 \<le> d" "d \<le> dim y m"
    by (simp_all add: valid_ymd_def)
  from d dim_bounds [of y m] have d31: "d \<le> 31" by linarith
  let ?r = "pad2 m @ ''-'' @ pad2 d"
  have lr: "length ?r = 5"
    using m d d31 by (simp add: length_pad2)
  have fmt: "formatDate x = show_int y @ CHR ''-'' # ?r"
    by (simp add: formatDate_def x)
  from assms(2) obtain y' r' m' d' where
    py: "parseYear (show_int y @ CHR ''-'' # ?r) = Some (y', r')"
    and pm: "parseMonthDay r' = Some (m', d')"
    and x': "x' = carryDay (y', m', d')"
    unfolding fmt by (auto simp add: parseDate_def Let_def split: if_splits option.splits)
  from pm have "parseMonthDay r' \<noteq> None"
    by simp
  with py lr have same: "y' = y \<and> r' = CHR ''-'' # ?r"
    by (rule parseYear_format)
  have "parseMonthDay (CHR ''-'' # ?r) = Some (m, d)"
    using parseMonthDay_format [OF m d(1) d31] by simp
  with pm same have "m' = m" and "d' = d"
    by simp_all
  with x' same x assms(1) show ?thesis
    by (simp add: carryDay_id)
qed

lemma prev_day_valid: "valid_ymd x \<Longrightarrow> valid_ymd (prev_day x)"
  by (cases x) (auto simp add: valid_ymd_def prev_day_def dim_def)

lemma prev_day_key: "valid_ymd x \<Longrightarrow> day_key (prev_day x) < day_key x"
  by (cases x) (auto simp add: valid_ymd_def prev_day_def day_key_def dim_def)

lemma shift_ymd_minus1: "shift_ymd x (- 1) = prev_day x"
  by (simp add: shift_ymd.simps)

lemma parseDate_NaN: "parseDate ''NaN-NaN-NaN'' = None"
  by (simp add: parseDate_def parseYear_def num_def digit_val_def)

lemma length_filter_less:
  assumes "\<And>c. P c \<Longrightarrow> Q c" and "c0 \<in> set cs" and "Q c0" and "\<not> P c0"
  shows "length (filter P cs) < length (filter Q cs)"
  using assms(2)
proof (induction cs)
  case Nil
  then show ?case by simp
next
  case (Cons c cs)
  have le: "length (filter P cs) \<le> length (filter Q cs)" for cs
    using assms(1) by (induction cs) auto
  show ?case
  proof (cases "c0 = c")
    case True
    with assms(3,4) le [of cs] show ?thesis by simp
  next
    case False
    with Cons have "length (filter P cs) < length (filter Q cs)" by simp
    with assms(1) show ?thesis by auto
  qed
qed

lemma walk_measure_decreases:
  assumes "(checkDay, habitId) \<in> set cs" and "parseDate checkDay = Some x"
  shows "walk_measure cs habitId (shiftDateStr checkDay (- 1)) < walk_measure cs habitId checkDay"
proof -
  let ?d = "shiftDateStr checkDay (- 1)"
  have vx: "valid_ymd x" using assms(2) by (rule parseDate_valid)
  let ?Q = "\<lambda>c. snd c = habitId \<and>
         (case parseDate (fst c) of None \<Rightarrow> False | Some z \<Rightarrow> day_key z \<le> day_key x)"
  have Q0: "?Q (checkDay, habitId)" using assms(2) by simp
  show ?thesis
  proof (cases "parseDate ?d")
    case None
    have "(checkDay, habitId) \<in> set (filter ?Q cs)"
      using assms(1) Q0 by simp
    then have "filter ?Q cs \<noteq> []"
      by (metis empty_iff list.set(1))
    then have "0 < length (filter ?Q cs)"
      by simp
    with None assms(2) show ?thesis by (simp add: walk_measure_def)
  next
    case (Some x')
    then have "?d = formatDate (prev_day x)"
      using assms(2) parseDate_NaN
      by (auto simp add: shiftDateStr_def shift_ymd_minus1 Let_def split: if_splits)
    with Some vx have x': "x' = prev_day x"
      using parse_format prev_day_valid by metis
    let ?P = "\<lambda>c. snd c = habitId \<and>
         (case parseDate (fst c) of None \<Rightarrow> False | Some z \<Rightarrow> day_key z \<le> day_key x')"
    have lt: "day_key x' < day_key x" using x' vx by (simp add: prev_day_key)
    have sub: "\<And>c. ?P c \<Longrightarrow> ?Q c" using lt by (auto split: option.splits)
    have notP: "\<not> ?P (checkDay, habitId)" using assms(2) lt by simp
    have "length (filter ?P cs) < length (filter ?Q cs)"
      using sub assms(1) Q0 notP by (rule length_filter_less)
    with Some assms(2) show ?thesis by (simp add: walk_measure_def)
  qed
qed

section \<open>The engine writes achievements only\<close>

lemma insertAchievement_frame [simp]:
  "habits (insertAchievement t i e s) = habits s"
  "completions (insertAchievement t i e s) = completions s"
  by (simp_all add: insertAchievement_def Let_def)

lemma deleteAchievements_frame [simp]:
  "habits (deleteAchievements P s) = habits s"
  "completions (deleteAchievements P s) = completions s"
  by (simp_all add: deleteAchievements_def)

lemma removeStreaks_tables:
  "habits (removeStreaks date i ts s) = habits s
    \<and> completions (removeStreaks date i ts s) = completions s"
  by (induction ts arbitrary: s) (auto simp add: Let_def)

lemma removeStreaks_frame [simp]:
  "habits (removeStreaks date i ts s) = habits s"
  "completions (removeStreaks date i ts s) = completions s"
  using removeStreaks_tables by simp_all

lemma removeInvalidAchievements_frame:
  "habits (removeInvalidAchievements date habitId s) = habits s"
  "completions (removeInvalidAchievements date habitId s) = completions s"
  by (simp_all add: removeInvalidAchievements_def Let_def)

lemma awardStreaks_frame:
  "awardStreaks date ids s = Inr s' \<Longrightarrow> habits s' = habits s \<and> completions s' = completions s"
proof (induction ids arbitrary: s)
  case Nil
  then show ?case by simp
next
  case (Cons i ids)
  from Cons.prems obtain s3 where
    "awardStreaks date ids s3 = Inr s'" and "habits s3 = habits s \<and> completions s3 = completions s"
    by (auto simp add: Let_def split: option.splits)
  with Cons.IH show ?case by metis
qed

lemma awardGlobalStreaks_tables:
  "habits (awardGlobalStreaks date ts s) = habits s
    \<and> completions (awardGlobalStreaks date ts s) = completions s"
  by (induction ts arbitrary: s) auto

lemma awardGlobalStreaks_frame [simp]:
  "habits (awardGlobalStreaks date ts s) = habits s"
  "completions (awardGlobalStreaks date ts s) = completions s"
  using awardGlobalStreaks_tables by simp_all

lemma awardHabitMonths_frame:
  "awardHabitMonths monthStr firstOfMonth days ids s = Inr s'
    \<Longrightarrow> habits s' = habits s \<and> completions s' = completions s"
proof (induction ids arbitrary: s)
  case Nil
  then show ?case by simp
next
  case (Cons i ids)
  from Cons.prems obtain s1 where
    "awardHabitMonths monthStr firstOfMonth days ids s1 = Inr s'"
    and "habits s1 = habits s \<and> completions s1 = completions s"
    by (auto split: option.splits if_splits)
  with Cons.IH show ?case by metis
qed

text \<open>The perfect month, with the texts it computes from the date named.\<close>

lemma awardPerfectMonth_unfold:
  "awardPerfectMonth date ids s =
    (case awardHabitMonths (prevMonthStr date) (prevMonthStr date @ ''-01'')
        (daysInMonth (if snd (yearMonth date) = Num 1 then jsMinus (fst (yearMonth date)) 1
                      else fst (yearMonth date))
          (if snd (yearMonth date) = Num 1 then Num 12 else jsMinus (snd (yearMonth date)) 1)) ids s of
       Inl e \<Rightarrow> Inl e
     | Inr s4 \<Rightarrow>
         Inr (if monthLoop (dayComplete s4) (prevMonthStr date)
                (daysInMonth (if snd (yearMonth date) = Num 1 then jsMinus (fst (yearMonth date)) 1
                      else fst (yearMonth date))
                  (if snd (yearMonth date) = Num 1 then Num 12 else jsMinus (snd (yearMonth date)) 1)) 1
              then insertAchievement ''perfect_month'' None (prevMonthStr date @ ''-01'') s4
              else s4))"
  by (cases "yearMonth date")
    (simp add: awardPerfectMonth_def prevMonthStr_def Let_def cong: sum.case_cong if_cong)

lemma awardPerfectMonth_stages:
  assumes "awardPerfectMonth date ids s = Inr s'"
  obtains days s4 where
    "awardHabitMonths (prevMonthStr date) (prevMonthStr date @ ''-01'') days ids s = Inr s4"
    and "s' = (if monthLoop (dayComplete s4) (prevMonthStr date) days 1
          then insertAchievement ''perfect_month'' None (prevMonthStr date @ ''-01'') s4 else s4)"
  using assms unfolding awardPerfectMonth_unfold
  by (auto split: sum.splits)

lemma awardPerfectMonth_frame:
  assumes "awardPerfectMonth date ids s = Inr s'"
  shows "habits s' = habits s \<and> completions s' = completions s"
  using assms
proof (cases rule: awardPerfectMonth_stages)
  case (1 days s4)
  from awardHabitMonths_frame [OF 1(1)] 1(2) show ?thesis by simp
qed

lemma awardPerfectDay_frame [simp]:
  "habits (awardPerfectDay date ids s) = habits s"
  "completions (awardPerfectDay date ids s) = completions s"
  by (simp_all add: awardPerfectDay_def)

lemma checkAchievements_cases:
  assumes "checkAchievements date s = Inr s'"
  obtains (idle) "filter (\<lambda>h. activeOn h date) (habits s) = []" "s' = s"
  | (run) s2 where "filter (\<lambda>h. activeOn h date) (habits s) \<noteq> []"
      "awardStreaks date (map hid (filter (\<lambda>h. activeOn h date) (habits s)))
         (awardPerfectDay date (map hid (filter (\<lambda>h. activeOn h date) (habits s))) s) = Inr s2"
      "awardPerfectMonth date (map hid (filter (\<lambda>h. activeOn h date) (habits s)))
         (awardGlobalStreaks date [7, 14, 21] s2) = Inr s'"
proof (cases "filter (\<lambda>h. activeOn h date) (habits s) = []")
  case True
  with assms have "s' = s" by (simp add: checkAchievements_def)
  with True show ?thesis by (rule idle)
next
  case False
  with assms show ?thesis
    by (auto simp add: checkAchievements_def Let_def split: sum.splits intro: run)
qed

lemma checkAchievements_frame:
  assumes "checkAchievements date s = Inr s'"
  shows "habits s' = habits s \<and> completions s' = completions s"
  using assms
proof (cases rule: checkAchievements_cases)
  case idle
  then show ?thesis by simp
next
  case (run s2)
  from awardStreaks_frame [OF run(2)] awardPerfectMonth_frame [OF run(3)]
  show ?thesis by simp
qed

section \<open>The award pass returns on dated completions\<close>

lemma countBack_returns:
  assumes "datedCompletions cs"
  shows "\<exists>n. countBack cs i d k = Some n"
proof (induction "walk_measure cs i d" arbitrary: d k rule: less_induct)
  case less
  show ?case
  proof (cases "(d, i) \<in> set cs")
    case False
    then show ?thesis by (subst countBack.simps) simp
  next
    case True
    with assms obtain x where x: "parseDate d = Some x"
      by (auto simp add: datedCompletions_def list_all_iff)
    from True x have "walk_measure cs i (shiftDateStr d (- 1)) < walk_measure cs i d"
      by (rule walk_measure_decreases)
    from less [OF this] obtain n where "countBack cs i (shiftDateStr d (- 1)) (k + 1) = Some n"
      by blast
    with True show ?thesis by (subst countBack.simps) simp
  qed
qed

lemma awardStreaks_returns:
  "datedCompletions (completions s) \<Longrightarrow> \<exists>s'. awardStreaks date ids s = Inr s'"
proof (induction ids arbitrary: s)
  case Nil
  then show ?case by simp
next
  case (Cons i ids)
  from countBack_returns [OF Cons.prems] obtain n where
    n: "countBack (completions s) i date 0 = Some n" by blast
  let ?s1 = "if 7 \<le> n then insertAchievement ''streak_7'' (Some i) date s else s"
  let ?s2 = "if 14 \<le> n then insertAchievement ''streak_14'' (Some i) date ?s1 else ?s1"
  let ?s3 = "if 21 \<le> n then insertAchievement ''streak_21'' (Some i) date ?s2 else ?s2"
  have "completions ?s3 = completions s" by simp
  with Cons.prems have "datedCompletions (completions ?s3)" by simp
  from Cons.IH [OF this] obtain s' where "awardStreaks date ids ?s3 = Inr s'" ..
  with n show ?case by (simp add: Let_def)
qed

lemma find_hid_Some: "i \<in> hid ` set hs \<Longrightarrow> \<exists>h. find (\<lambda>h. hid h = i) hs = Some h"
  by (cases "find (\<lambda>h. hid h = i) hs") (auto simp add: find_None_iff)

lemma awardHabitMonths_returns:
  "set ids \<subseteq> hid ` set (habits s) \<Longrightarrow> \<exists>s'. awardHabitMonths monthStr firstOfMonth days ids s = Inr s'"
proof (induction ids arbitrary: s)
  case Nil
  then show ?case by simp
next
  case (Cons i ids)
  from Cons.prems have "i \<in> hid ` set (habits s)" by simp
  from find_hid_Some [OF this] obtain h where h: "find (\<lambda>h. hid h = i) (habits s) = Some h" ..
  let ?s1 = "if monthLoop (\<lambda>dayStr. (dayStr, i) \<in> set (completions s)) monthStr days 1
            then insertAchievement ''perfect_month'' (Some i) firstOfMonth s else s"
  from Cons.prems have a: "set ids \<subseteq> hid ` set (habits s)" and b: "set ids \<subseteq> hid ` set (habits ?s1)"
    by simp_all
  from Cons.IH [OF a] Cons.IH [OF b] h show ?case by simp
qed

lemma awardPerfectMonth_returns:
  assumes "set ids \<subseteq> hid ` set (habits s)"
  shows "\<exists>s'. awardPerfectMonth date ids s = Inr s'"
proof -
  from awardHabitMonths_returns [OF assms] obtain s4 where
    "awardHabitMonths (prevMonthStr date) (prevMonthStr date @ ''-01'')
        (daysInMonth (if snd (yearMonth date) = Num 1 then jsMinus (fst (yearMonth date)) 1
                      else fst (yearMonth date))
          (if snd (yearMonth date) = Num 1 then Num 12 else jsMinus (snd (yearMonth date)) 1)) ids s
      = Inr s4" by blast
  then show ?thesis
    unfolding awardPerfectMonth_unfold by simp
qed

lemma checkAchievements_returns:
  assumes "datedCompletions (completions s)"
  shows "\<exists>s'. checkAchievements date s = Inr s'"
proof (cases "filter (\<lambda>h. activeOn h date) (habits s) = []")
  case True
  then show ?thesis by (simp add: checkAchievements_def)
next
  case False
  let ?ids = "map hid (filter (\<lambda>h. activeOn h date) (habits s))"
  have "datedCompletions (completions (awardPerfectDay date ?ids s))"
    using assms by simp
  from awardStreaks_returns [OF this] obtain s2 where
    s2: "awardStreaks date ?ids (awardPerfectDay date ?ids s) = Inr s2" by blast
  from awardStreaks_frame [OF s2]
  have "habits (awardGlobalStreaks date [7, 14, 21] s2) = habits s" by simp
  then have "set ?ids \<subseteq> hid ` set (habits (awardGlobalStreaks date [7, 14, 21] s2))" by auto
  from awardPerfectMonth_returns [OF this] obtain s' where
    "awardPerfectMonth date ?ids (awardGlobalStreaks date [7, 14, 21] s2) = Inr s'" by blast
  with False s2 show ?thesis by (simp add: checkAchievements_def Let_def)
qed

section \<open>The rows the invalidation pass deletes\<close>

lemma deleteAchievements_rows [simp]:
  "achievements (deleteAchievements P s) = filter (\<lambda>a. \<not> P a) (achievements s)"
  by (simp add: deleteAchievements_def)

lemma streakHit_Nil [simp]: "\<not> streakHit date i [] a"
  by (simp add: streakHit_def)

lemma streakHit_Cons:
  "streakHit date i ((type, n) # ts) a \<longleftrightarrow>
      atype a = type \<and> habit_id a = i \<and> date \<le> earned_date a
        \<and> earned_date a \<le> shiftDateStr date (n - 1)
      \<or> streakHit date i ts a"
  by (simp add: streakHit_def)

lemma removeStreaks_rows:
  "achievements (removeStreaks date i ts s) = filter (\<lambda>a. \<not> streakHit date i ts a) (achievements s)"
proof (induction ts arbitrary: s)
  case Nil
  then show ?case by simp
next
  case (Cons t ts)
  obtain type n where t: "t = (type, n)" by (cases t)
  have "achievements (removeStreaks date i (t # ts) s) = filter (\<lambda>a. \<not> streakHit date i ts a)
      (filter (\<lambda>a. \<not> (atype a = type \<and> habit_id a = i
        \<and> date \<le> earned_date a \<and> earned_date a \<le> shiftDateStr date (n - 1))) (achievements s))"
    unfolding t by (simp add: Let_def Cons.IH)
  also have "\<dots> = filter (\<lambda>a. \<not> streakHit date i (t # ts) a) (achievements s)"
    unfolding filter_filter t streakHit_Cons by (intro filter_cong refl) auto
  finally show ?case .
qed

lemma removeInvalidAchievements_rows:
  "achievements (removeInvalidAchievements date habitId s)
    = filter (\<lambda>a. \<not> invalidated date habitId a) (achievements s)"
proof -
  have "achievements (removeInvalidAchievements date habitId s)
    = filter (\<lambda>a. \<not> (atype a = ''perfect_month''
                            \<and> habit_id a = None \<and> earned_date a = take 7 date @ ''-01''))
      (filter (\<lambda>a. \<not> (atype a = ''perfect_month''
                            \<and> habit_id a = Some habitId \<and> earned_date a = take 7 date @ ''-01''))
      (filter (\<lambda>a. \<not> streakHit date None streakTypes a)
      (filter (\<lambda>a. \<not> streakHit date (Some habitId) streakTypes a)
      (filter (\<lambda>a. \<not> (atype a = ''perfect_day'' \<and> habit_id a = None \<and> earned_date a = date))
         (achievements s)))))"
    unfolding removeInvalidAchievements_def Let_def deleteAchievements_rows removeStreaks_rows ..
  also have "\<dots> = filter (\<lambda>a. \<not> invalidated date habitId a) (achievements s)"
    unfolding filter_filter invalidated_def by (intro filter_cong refl) blast
  finally show ?thesis .
qed

lemma streakHit_streakTypes:
  "streakHit date i streakTypes a \<longleftrightarrow>
    habit_id a = i \<and> date \<le> earned_date a \<and>
      (atype a = ''streak_7'' \<and> earned_date a \<le> shiftDateStr date 6
       \<or> atype a = ''streak_14'' \<and> earned_date a \<le> shiftDateStr date 13
       \<or> atype a = ''streak_21'' \<and> earned_date a \<le> shiftDateStr date 20)"
proof -
  have e: "(7 :: int) - 1 = 6" "(14 :: int) - 1 = 13" "(21 :: int) - 1 = 20"
    by simp_all
  show ?thesis
    unfolding streakTypes_def streakHit_Cons e
    using streakHit_Nil [of date i a] by blast
qed

section \<open>Evaluation on concrete tables\<close>

lemmas eval_defs = checkAchievements_def awardPerfectDay_def awardPerfectMonth_def yearMonth_def
  activeOn_def visibleOn_def insertAchievement_def deleteAchievements_def dayComplete_def
  removeInvalidAchievements_def streakTypes_def
  countBack.simps allStreak.simps monthLoop.simps shiftDateStr_def parseDate_def parseYear_def
  parseMonthDay_def carryDay_def noonInRange_def midnightInRange_def ymd_le_def num_def
  digit_val_def valid_ymd_def dim_def leap_def shift_ymd.simps prev_day_def next_day_def
  formatDate_def show_int_def show_nat.simps pad2_def padStart2_def digit_char_def daysInMonth_def
  jsNumber_def jsString_def jsMinus_def jsLe_def Let_def

text \<open>
  The calendar of the model at the ends of months, in leap years and at the end of a year;
  a day the month does not have, a year below 1000, the short and the long forms of a
  date; strings that are no dates, and the end of the range of \<^verbatim>\<open>Date\<close>.
\<close>

lemma shiftDateStr_examples:
  "shiftDateStr ''2024-02-28'' 1 = ''2024-02-29''"
  "shiftDateStr ''2023-02-28'' 1 = ''2023-03-01''"
  "shiftDateStr ''2024-12-31'' 1 = ''2025-01-01''"
  "shiftDateStr ''2024-03-01'' (- 1) = ''2024-02-29''"
  "shiftDateStr ''1900-03-01'' (- 1) = ''1900-02-28''"
  "shiftDateStr ''2024-01-01'' (- 1) = ''2023-12-31''"
  "shiftDateStr ''2024-02-20'' 20 = ''2024-03-11''"
  "shiftDateStr ''2024-02-30'' 1 = ''2024-03-02''"
  "shiftDateStr ''0024-01-07'' 6 = ''24-01-13''"
  "shiftDateStr ''2024-03'' 0 = ''2024-03-01''"
  "shiftDateStr ''+002024-03-01'' (- 1) = ''2024-02-29''"
  "shiftDateStr ''-000001-01-01'' (- 1) = ''-2-12-31''"
  "shiftDateStr ''2024-13-01'' 1 = ''NaN-NaN-NaN''"
  "shiftDateStr ''24-01-13'' 1 = ''NaN-NaN-NaN''"
  "shiftDateStr ''garbage'' (- 1) = ''NaN-NaN-NaN''"
  "shiftDateStr ''NaN-NaN-NaN'' (- 1) = ''NaN-NaN-NaN''"
  "shiftDateStr ''+275760-09-12'' 1 = ''NaN-NaN-NaN''"
  by (simp_all add: eval_defs)

lemma daysInMonth_examples:
  "daysInMonth (Num 2024) (Num 2) = Num 29" "daysInMonth (Num 2023) (Num 2) = Num 28"
  "daysInMonth (Num 2023) (Num 12) = Num 31" "daysInMonth (Num 2024) (Num 0) = Num 31"
  "daysInMonth (Num 24) (Num 2) = Num 29"
  "daysInMonth NaN (Num 2) = NaN" "daysInMonth (Num 2024) NaN = NaN"
  "daysInMonth (Num 999999) (Num 1) = NaN"
  by (simp_all add: eval_defs)

lemma yearMonth_examples:
  "yearMonth ''2024-03-01'' = (Num 2024, Num 3)"
  "yearMonth ''0024-01-07'' = (Num 24, Num 1)"
  "yearMonth ''garbage'' = (NaN, NaN)"
  "yearMonth ''2024'' = (Num 2024, NaN)"
  "yearMonth [] = (Num 0, NaN)"
  "yearMonth ''-002024-01-05'' = (Num 0, Num 2024)"
  "prevMonthStr ''2024-03-01'' = ''2024-02''"
  "prevMonthStr ''2024-01-07'' = ''2023-12''"
  "prevMonthStr ''garbage'' = ''NaN-NaN''"
  by (simp_all add: eval_defs prevMonthStr_def)

lemma week_award:
  "checkAchievements ''2024-01-07''
      \<lparr>habits = [habitA, habitB], completions = weekCompletions, achievements = []\<rparr>
    = Inr \<lparr>habits = [habitA, habitB], completions = weekCompletions, achievements = weekAwards\<rparr>"
  by (simp add: eval_defs habitA_def habitB_def weekCompletions_def weekAwards_def)

lemma week_invalidate:
  "removeInvalidAchievements ''2024-01-03'' ''A''
      \<lparr>habits = [habitA, habitB],
       completions = filter (\<lambda>c. c \<noteq> (''2024-01-03'', ''A'')) weekCompletions,
       achievements = weekAwards\<rparr>
    = \<lparr>habits = [habitA, habitB],
       completions = filter (\<lambda>c. c \<noteq> (''2024-01-03'', ''A'')) weekCompletions,
       achievements =
         [\<lparr>atype = ''perfect_day'', habit_id = None, earned_date = ''2024-01-07''\<rparr>,
          \<lparr>atype = ''streak_7'', habit_id = Some ''B'', earned_date = ''2024-01-07''\<rparr>]\<rparr>"
  by (simp add: eval_defs weekAwards_def)

lemma shift_0103:
  "shiftDateStr ''2024-01-03'' 6 = ''2024-01-09''"
  by (simp add: eval_defs)

lemma late_invalidate:
  "removeInvalidAchievements ''2024-01-03'' ''A''
      \<lparr>habits = [habitA, habitB], completions = [],
       achievements =
         [\<lparr>atype = ''streak_7'', habit_id = Some ''A'', earned_date = ''2024-01-09''\<rparr>,
          \<lparr>atype = ''streak_7'', habit_id = Some ''A'', earned_date = ''2024-01-10''\<rparr>,
          \<lparr>atype = ''perfect_month'', habit_id = Some ''A'', earned_date = ''2023-12-01''\<rparr>]\<rparr>
    = \<lparr>habits = [habitA, habitB], completions = [],
       achievements =
         [\<lparr>atype = ''streak_7'', habit_id = Some ''A'', earned_date = ''2024-01-10''\<rparr>,
          \<lparr>atype = ''perfect_month'', habit_id = Some ''A'', earned_date = ''2023-12-01''\<rparr>]\<rparr>"
  by (simp add: eval_defs)

lemma march_dates:
  "shiftDateStr ''2024-03-10'' (- 1) = ''2024-03-09''"
  "shiftDateStr ''2024-03-09'' (- 1) = ''2024-03-08''"
  "shiftDateStr ''2024-03-08'' (- 1) = ''2024-03-07''"
  "datedCompletions marchCompletions"
  by (simp_all add: eval_defs marchCompletions_def datedCompletions_def)

lemma march_streaks:
  "getStreaks ''2024-03-10'' ''2024-03-10''
      \<lparr>habits = [habitA, habitB], completions = marchCompletions, achievements = []\<rparr>
    = Inr [\<lparr>sid = ''B'', sname = ''Read'', streak = 3\<rparr>, \<lparr>sid = ''A'', sname = ''Run'', streak = 2\<rparr>]"
  by (simp add: eval_defs getStreaks_def habitStreak_def habitA_def habitB_def marchCompletions_def)

lemma feb_award:
  "checkAchievements ''2024-03-01''
      \<lparr>habits = [habitC, habitD], completions = febCompletions, achievements = []\<rparr>
    = Inr \<lparr>habits = [habitC, habitD], completions = febCompletions,
           achievements =
             [\<lparr>atype = ''perfect_month'', habit_id = Some ''C'', earned_date = ''2024-02-01''\<rparr>,
              \<lparr>atype = ''perfect_month'', habit_id = None, earned_date = ''2024-02-01''\<rparr>]\<rparr>"
  by (simp add: eval_defs habitC_def habitD_def febCompletions_def)

lemma week_award_again:
  "checkAchievements ''2024-01-07''
      \<lparr>habits = [habitA, habitB], completions = weekCompletions, achievements = weekAwards\<rparr>
    = Inr \<lparr>habits = [habitA, habitB], completions = weekCompletions,
           achievements = weekAwards @
             [\<lparr>atype = ''perfect_day'', habit_id = None, earned_date = ''2024-01-07''\<rparr>,
              \<lparr>atype = ''streak_7'', habit_id = None, earned_date = ''2024-01-07''\<rparr>]\<rparr>"
  by (simp add: eval_defs habitA_def habitB_def weekCompletions_def weekAwards_def)

lemma feb_dates:
  "isoDate ''2024-03-01''"
  "isFirstOfMonth ''2024-02-01''"
  by (simp_all add: eval_defs isoDate_def isFirstOfMonth_def read_int_def)

lemma feb_completions_dated: "datedCompletions febCompletions"
  by (simp add: eval_defs datedCompletions_def febCompletions_def)

text \<open>
  The award pass on a string that is no date, with one habit and no completion: the walk
  and the global streaks add nothing; \<^verbatim>\<open>year\<close>, \<^verbatim>\<open>month\<close> and \<^verbatim>\<open>days\<close> are \<^verbatim>\<open>NaN\<close>, the two
  loops over the days of the month run no step, \<^verbatim>\<open>'2024-01-01' > 'NaN-NaN-01'\<close> is false,
  and the pass inserts a perfect month of the habit and a global one, dated
  \<^verbatim>\<open>NaN-NaN-01\<close>.
\<close>

lemma garbage_award:
  "checkAchievements ''garbage''
      \<lparr>habits = [\<lparr>hid = ''A'', hname = ''Run'', created_date = ''2024-01-01'', deleted = False,
                   deleted_date = None, sort_order = 0\<rparr>],
       completions = [], achievements = []\<rparr>
    = Inr \<lparr>habits = [\<lparr>hid = ''A'', hname = ''Run'', created_date = ''2024-01-01'',
                       deleted = False, deleted_date = None, sort_order = 0\<rparr>],
           completions = [],
           achievements =
             [\<lparr>atype = ''perfect_month'', habit_id = Some ''A'', earned_date = ''NaN-NaN-01''\<rparr>,
              \<lparr>atype = ''perfect_month'', habit_id = None, earned_date = ''NaN-NaN-01''\<rparr>]\<rparr>"
  by (simp add: eval_defs)

text \<open>A completion dated \<^verbatim>\<open>NaN-NaN-NaN\<close> is its own predecessor: the walk never ends.\<close>

lemma countBack_NaN_step:
  assumes "countBack cs i d k = Some n"
  shows "\<not> (cs = [(''NaN-NaN-NaN'', i)] \<and> d = ''NaN-NaN-NaN'')"
  by (rule countBack.raw_induct
      [where P = "\<lambda>cs i d k n. \<not> (cs = [(''NaN-NaN-NaN'', i)] \<and> d = ''NaN-NaN-NaN'')", OF _ assms])
    (fastforce simp add: shiftDateStr_def parseDate_NaN split: if_splits)

lemma countBack_NaN: "countBack [(''NaN-NaN-NaN'', i)] i ''NaN-NaN-NaN'' k = None"
  using countBack_NaN_step [of "[(''NaN-NaN-NaN'', i)]" i "''NaN-NaN-NaN''" k]
  by (cases "countBack [(''NaN-NaN-NaN'', i)] i ''NaN-NaN-NaN'' k") auto

section \<open>Completion toggles\<close>

lemma toggleCompletion_off:
  "toggleCompletion date habitId False s
    = s\<lparr>completions := filter (\<lambda>c. c \<noteq> (date, habitId)) (completions s)\<rparr>"
proof -
  have "(\<lambda>c. \<not> (fst c = date \<and> snd c = habitId)) = (\<lambda>c :: completion. c \<noteq> (date, habitId))"
    by (auto simp add: fun_eq_iff)
  then show ?thesis
    unfolding toggleCompletion_def by simp
qed

lemma toggleCompletion_on:
  "toggleCompletion date habitId True s
    = (if (date, habitId) \<in> set (completions s) then s
       else s\<lparr>completions := completions s @ [(date, habitId)]\<rparr>)"
  by (simp add: toggleCompletion_def)

lemma filter_absent: "x \<notin> set xs \<Longrightarrow> filter (\<lambda>c. c \<noteq> x) xs = xs"
  by (induction xs) auto

text \<open>
  Claim C10. Toggling a completion on twice is the same as toggling it on once; toggling
  it off when there is no record changes nothing; from a state with no record, toggling on
  and then off gives the state back; and no toggle changes the rows of any other
  (date, habit) pair, nor the habits or the achievements.
\<close>

theorem toggleCompletion_algebra:
  "toggleCompletion date habitId True (toggleCompletion date habitId True s)
      = toggleCompletion date habitId True s
   \<and> ((date, habitId) \<notin> set (completions s) \<longrightarrow> toggleCompletion date habitId False s = s)
   \<and> ((date, habitId) \<notin> set (completions s) \<longrightarrow>
        toggleCompletion date habitId False (toggleCompletion date habitId True s) = s)
   \<and> filter (\<lambda>c. c \<noteq> (date, habitId)) (completions (toggleCompletion date habitId b s))
        = filter (\<lambda>c. c \<noteq> (date, habitId)) (completions s)
   \<and> habits (toggleCompletion date habitId b s) = habits s
   \<and> achievements (toggleCompletion date habitId b s) = achievements s"
proof (cases b)
  case True
  then show ?thesis
    by (simp add: toggleCompletion_on toggleCompletion_off filter_absent)
next
  case False
  then show ?thesis
    by (simp add: toggleCompletion_on toggleCompletion_off filter_absent)
qed

theorem toggleCompletion_algebra_witness:
  "(''2024-01-03'', ''A'') \<notin> set [(''2024-01-02'', ''A''), (''2024-01-03'', ''B'')]
   \<and> toggleCompletion ''2024-01-03'' ''A'' True
        \<lparr>habits = [habitA, habitB],
         completions = [(''2024-01-02'', ''A''), (''2024-01-03'', ''B'')], achievements = []\<rparr>
      = \<lparr>habits = [habitA, habitB],
         completions = [(''2024-01-02'', ''A''), (''2024-01-03'', ''B''), (''2024-01-03'', ''A'')],
         achievements = []\<rparr>
   \<and> toggleCompletion ''2024-01-03'' ''A'' False
        (toggleCompletion ''2024-01-03'' ''A'' True
          \<lparr>habits = [habitA, habitB],
           completions = [(''2024-01-02'', ''A''), (''2024-01-03'', ''B'')], achievements = []\<rparr>)
      = \<lparr>habits = [habitA, habitB],
         completions = [(''2024-01-02'', ''A''), (''2024-01-03'', ''B'')], achievements = []\<rparr>"
proof -
  let ?s = "\<lparr>habits = [habitA, habitB],
      completions = [(''2024-01-02'', ''A''), (''2024-01-03'', ''B'')], achievements = []\<rparr>"
  have absent: "(''2024-01-03'', ''A'') \<notin> set (completions ?s)"
    by simp
  with toggleCompletion_algebra [of "''2024-01-03''" "''A''" ?s True]
  have "toggleCompletion ''2024-01-03'' ''A'' False (toggleCompletion ''2024-01-03'' ''A'' True ?s) = ?s"
    by blast
  with absent show ?thesis
    by (simp add: toggleCompletion_on)
qed

section \<open>The award pass\<close>

text \<open>
  Claim C6. When no habit is active on the date (created on or before it and not deleted
  as of it), the award pass returns the state as it is: it inserts no achievement of any
  type, in particular no global perfect day and no global streak.
\<close>

theorem no_active_habit_no_award:
  assumes "\<forall>h \<in> set (habits s). \<not> activeOn h date"
  shows "checkAchievements date s = Inr s"
proof -
  from assms have "filter (\<lambda>h. activeOn h date) (habits s) = []"
    by (simp add: filter_empty_conv)
  then show ?thesis
    by (simp add: checkAchievements_def)
qed

theorem no_active_habit_no_award_witness:
  "\<not> activeOn \<lparr>hid = ''A'', hname = ''Run'', created_date = ''2024-02-01'', deleted = False,
                 deleted_date = None, sort_order = 0\<rparr> ''2024-01-15''
   \<and> \<not> activeOn \<lparr>hid = ''B'', hname = ''Read'', created_date = ''2023-01-01'', deleted = True,
                 deleted_date = Some ''2023-06-01'', sort_order = 1\<rparr> ''2024-01-15''
   \<and> checkAchievements ''2024-01-15''
        \<lparr>habits = [\<lparr>hid = ''A'', hname = ''Run'', created_date = ''2024-02-01'', deleted = False,
                     deleted_date = None, sort_order = 0\<rparr>,
                   \<lparr>hid = ''B'', hname = ''Read'', created_date = ''2023-01-01'', deleted = True,
                     deleted_date = Some ''2023-06-01'', sort_order = 1\<rparr>],
         completions = [(''2024-01-15'', ''A''), (''2024-01-15'', ''B'')],
         achievements = []\<rparr>
      = Inr \<lparr>habits = [\<lparr>hid = ''A'', hname = ''Run'', created_date = ''2024-02-01'',
                     deleted = False, deleted_date = None, sort_order = 0\<rparr>,
                   \<lparr>hid = ''B'', hname = ''Read'', created_date = ''2023-01-01'', deleted = True,
                     deleted_date = Some ''2023-06-01'', sort_order = 1\<rparr>],
         completions = [(''2024-01-15'', ''A''), (''2024-01-15'', ''B'')],
         achievements = []\<rparr>"
proof -
  let ?a = "\<lparr>hid = ''A'', hname = ''Run'', created_date = ''2024-02-01'', deleted = False,
      deleted_date = None, sort_order = 0\<rparr>"
  let ?b = "\<lparr>hid = ''B'', hname = ''Read'', created_date = ''2023-01-01'', deleted = True,
      deleted_date = Some ''2023-06-01'', sort_order = 1\<rparr>"
  let ?s = "\<lparr>habits = [?a, ?b],
      completions = [(''2024-01-15'', ''A''), (''2024-01-15'', ''B'')], achievements = []\<rparr>"
  have a: "\<not> activeOn ?a ''2024-01-15''" and b: "\<not> activeOn ?b ''2024-01-15''"
    by (simp_all add: activeOn_def visibleOn_def)
  then have "\<forall>h \<in> set (habits ?s). \<not> activeOn h ''2024-01-15''"
    by simp
  from no_active_habit_no_award [OF this] a b show ?thesis
    by simp
qed

section \<open>The invalidation pass\<close>

lemma show_nat_thresholds:
  "show_nat 7 = ''7''" "show_nat 14 = ''14''" "show_nat 21 = ''21''"
  by (simp_all add: show_nat.simps digit_char_def)





section \<open>Frame of the engine\<close>

text \<open>
  Claim C9. The award pass and the invalidation pass leave the habits table and the
  completions table as they are, for every input: whenever the award pass returns, the
  two tables of the result are those of the input, and only the achievements may differ;
  the invalidation pass always returns, with the two tables of the input. The award pass
  returns whenever the dates of the completions are dates.
\<close>

theorem engine_writes_achievements_only:
  "(\<forall>s'. checkAchievements date s = Inr s' \<longrightarrow>
      habits s' = habits s \<and> completions s' = completions s)
   \<and> habits (removeInvalidAchievements date habitId s) = habits s
   \<and> completions (removeInvalidAchievements date habitId s) = completions s
   \<and> (datedCompletions (completions s) \<longrightarrow> (\<exists>s'. checkAchievements date s = Inr s'))"
  using checkAchievements_frame removeInvalidAchievements_frame checkAchievements_returns
  by blast

theorem engine_writes_achievements_only_witness:
  "checkAchievements ''2024-01-07''
      \<lparr>habits = [habitA, habitB], completions = weekCompletions, achievements = []\<rparr>
    = Inr \<lparr>habits = [habitA, habitB], completions = weekCompletions, achievements = weekAwards\<rparr>
   \<and> habits \<lparr>habits = [habitA, habitB], completions = weekCompletions, achievements = weekAwards\<rparr>
      = habits \<lparr>habits = [habitA, habitB], completions = weekCompletions, achievements = []\<rparr>
   \<and> completions \<lparr>habits = [habitA, habitB], completions = weekCompletions, achievements = weekAwards\<rparr>
      = completions \<lparr>habits = [habitA, habitB], completions = weekCompletions, achievements = []\<rparr>
   \<and> weekAwards \<noteq> []
   \<and> datedCompletions weekCompletions
   \<and> habits (removeInvalidAchievements ''2024-01-03'' ''A''
        \<lparr>habits = [habitA, habitB], completions = weekCompletions, achievements = weekAwards\<rparr>)
      = [habitA, habitB]
   \<and> completions (removeInvalidAchievements ''2024-01-03'' ''A''
        \<lparr>habits = [habitA, habitB], completions = weekCompletions, achievements = weekAwards\<rparr>)
      = weekCompletions"
proof -
  let ?s = "\<lparr>habits = [habitA, habitB], completions = weekCompletions, achievements = []\<rparr>"
  let ?t = "\<lparr>habits = [habitA, habitB], completions = weekCompletions, achievements = weekAwards\<rparr>"
  note frame = engine_writes_achievements_only [of "''2024-01-07''" ?s "''A''"]
  from frame week_award have a: "habits ?t = habits ?s \<and> completions ?t = completions ?s"
    by blast
  have d: "datedCompletions weekCompletions"
    by (simp add: eval_defs datedCompletions_def weekCompletions_def)
  from engine_writes_achievements_only [of "''2024-01-03''" ?t "''A''"]
  have "habits (removeInvalidAchievements ''2024-01-03'' ''A'' ?t) = habits ?t
      \<and> completions (removeInvalidAchievements ''2024-01-03'' ''A'' ?t) = completions ?t"
    by blast
  with week_award a d show ?thesis
    by (simp add: weekAwards_def)
qed

section \<open>The streak calculator\<close>

lemma habitStreak_returns:
  assumes "datedCompletions cs"
  shows "\<exists>r. habitStreak cs isToday date h = Inr r"
proof -
  from countBack_returns [OF assms] obtain n m where
    "countBack cs (hid h) date 0 = Some n"
    and "countBack cs (hid h) (shiftDateStr date (- 1)) 0 = Some m"
    by blast
  then show ?thesis
    by (simp add: habitStreak_def Let_def)
qed

lemma streakLoop_result:
  assumes "\<forall>h \<in> set hs. \<exists>r. habitStreak cs isToday date h = Inr r"
  shows "\<exists>rs. streakLoop cs isToday date hs acc = Inr rs
    \<and> set rs = set acc \<union> {r. \<exists>h \<in> set hs. habitStreak cs isToday date h = Inr (Some r)}"
  using assms
proof (induction hs arbitrary: acc)
  case Nil
  then show ?case by simp
next
  case (Cons h hs)
  from Cons.prems obtain r where r: "habitStreak cs isToday date h = Inr r" by auto
  from Cons.prems have rest: "\<forall>h \<in> set hs. \<exists>r. habitStreak cs isToday date h = Inr r" by simp
  show ?case
  proof (cases r)
    case None
    from Cons.IH [OF rest, of acc] r None show ?thesis by auto
  next
    case (Some e)
    from Cons.IH [OF rest, of "acc @ [e]"] r Some show ?thesis by auto
  qed
qed

lemma countBack_stop: "(d, i) \<notin> set cs \<Longrightarrow> countBack cs i d k = Some k"
  by (subst countBack.simps) simp

lemma countBack_step:
  "(d, i) \<in> set cs \<Longrightarrow> countBack cs i d k = countBack cs i (shiftDateStr d (- 1)) (k + 1)"
  by (subst countBack.simps) simp

lemma countBack_two:
  assumes "(y1, i) \<in> set cs" and "shiftDateStr y1 (- 1) = y2" and "(y2, i) \<in> set cs"
    and "shiftDateStr y2 (- 1) = y3" and "(y3, i) \<notin> set cs"
  shows "countBack cs i y1 0 = Some 2"
proof -
  have "countBack cs i y1 0 = countBack cs i y2 (0 + 1)"
    using countBack_step [OF assms(1)] assms(2) by simp
  also have "\<dots> = countBack cs i y3 (0 + 1 + 1)"
    using countBack_step [OF assms(3)] assms(4) by simp
  also have "\<dots> = Some (0 + 1 + 1)"
    using assms(5) by (rule countBack_stop)
  finally show ?thesis by simp
qed

text \<open>
  Claim C5. When the viewing date is today and a visible habit has no completion today
  but has one yesterday and one the day before, and none on the day before that,
  \<^verbatim>\<open>getStreaks\<close> returns an entry with a streak of 2 for the habit (the walk starts at
  yesterday), and no other entry for it.
\<close>

theorem today_shift_streak:
  assumes "h \<in> set (habits s)" and "visibleOn h today"
    and "distinct (map hid (habits s))"
    and "datedCompletions (completions s)"
    and "(today, hid h) \<notin> set (completions s)"
    and "shiftDateStr today (- 1) = y1" and "(y1, hid h) \<in> set (completions s)"
    and "shiftDateStr y1 (- 1) = y2" and "(y2, hid h) \<in> set (completions s)"
    and "shiftDateStr y2 (- 1) = y3" and "(y3, hid h) \<notin> set (completions s)"
  shows "\<exists>rs. getStreaks today today s = Inr rs
    \<and> \<lparr>sid = hid h, sname = hname h, streak = 2\<rparr> \<in> set rs
    \<and> (\<forall>r \<in> set rs. sid r = hid h \<longrightarrow> streak r = 2)"
proof -
  let ?cs = "completions s"
  let ?hs = "sort_key sort_order (filter (\<lambda>h. visibleOn h today) (habits s))"
  have two: "countBack ?cs (hid h) y1 0 = Some 2"
    using assms(7-11) by (rule countBack_two)
  have mine: "habitStreak ?cs True today h = Inr (Some \<lparr>sid = hid h, sname = hname h, streak = 2\<rparr>)"
    using assms(5,6) two by (simp add: habitStreak_def Let_def)
  have "\<forall>k \<in> set ?hs. \<exists>r. habitStreak ?cs True today k = Inr r"
    using habitStreak_returns [OF assms(4)] by blast
  from streakLoop_result [OF this, of "[]"] obtain rs where
    rs: "streakLoop ?cs True today ?hs [] = Inr rs"
    and set_rs: "set rs = {r. \<exists>k \<in> set ?hs. habitStreak ?cs True today k = Inr (Some r)}"
    by auto
  have res: "getStreaks today today s = Inr (sort_key (\<lambda>r. - int (streak r)) rs)"
    using rs by (simp add: getStreaks_def Let_def)
  have hs: "h \<in> set ?hs"
    using assms(1,2) by simp
  have a: "\<lparr>sid = hid h, sname = hname h, streak = 2\<rparr> \<in> set rs"
    unfolding set_rs using hs mine by blast
  have b: "streak r = 2" if "r \<in> set rs" and "sid r = hid h" for r
  proof -
    from that(1) obtain k where k: "k \<in> set ?hs" and r: "habitStreak ?cs True today k = Inr (Some r)"
      unfolding set_rs by blast
    from r have "sid r = hid k"
      by (auto simp add: habitStreak_def Let_def split: if_splits option.splits)
    with that(2) have "hid k = hid h" by simp
    moreover from k have "k \<in> set (habits s)" by simp
    ultimately have "k = h"
      using assms(1,3) by (meson distinct_map inj_onD)
    with r mine have "r = \<lparr>sid = hid h, sname = hname h, streak = 2\<rparr>" by simp
    then show ?thesis by simp
  qed
  from res a b show ?thesis by simp
qed

theorem today_shift_streak_witness:
  "habitA \<in> set [habitA, habitB] \<and> visibleOn habitA ''2024-03-10''
   \<and> distinct (map hid [habitA, habitB])
   \<and> datedCompletions marchCompletions
   \<and> (''2024-03-10'', hid habitA) \<notin> set marchCompletions
   \<and> shiftDateStr ''2024-03-10'' (- 1) = ''2024-03-09''
   \<and> (''2024-03-09'', hid habitA) \<in> set marchCompletions
   \<and> shiftDateStr ''2024-03-09'' (- 1) = ''2024-03-08''
   \<and> (''2024-03-08'', hid habitA) \<in> set marchCompletions
   \<and> shiftDateStr ''2024-03-08'' (- 1) = ''2024-03-07''
   \<and> (''2024-03-07'', hid habitA) \<notin> set marchCompletions
   \<and> getStreaks ''2024-03-10'' ''2024-03-10''
        \<lparr>habits = [habitA, habitB], completions = marchCompletions, achievements = []\<rparr>
      = Inr [\<lparr>sid = ''B'', sname = ''Read'', streak = 3\<rparr>,
             \<lparr>sid = ''A'', sname = ''Run'', streak = 2\<rparr>]
   \<and> \<lparr>sid = hid habitA, sname = hname habitA, streak = 2\<rparr>
        \<in> set [\<lparr>sid = ''B'', sname = ''Read'', streak = 3\<rparr>,
               \<lparr>sid = ''A'', sname = ''Run'', streak = 2\<rparr>]"
proof -
  let ?s = "\<lparr>habits = [habitA, habitB], completions = marchCompletions, achievements = []\<rparr>"
  have h: "habitA \<in> set (habits ?s)" "visibleOn habitA ''2024-03-10''"
      "distinct (map hid (habits ?s))"
    by (simp_all add: habitA_def habitB_def visibleOn_def)
  have d: "datedCompletions (completions ?s)"
    by (simp add: march_dates)
  have c: "(''2024-03-10'', hid habitA) \<notin> set (completions ?s)"
      "(''2024-03-09'', hid habitA) \<in> set (completions ?s)"
      "(''2024-03-08'', hid habitA) \<in> set (completions ?s)"
      "(''2024-03-07'', hid habitA) \<notin> set (completions ?s)"
    by (simp_all add: habitA_def marchCompletions_def)
  from today_shift_streak [OF h d c(1) march_dates(1) c(2) march_dates(2) c(3) march_dates(3) c(4)]
  obtain rs where "getStreaks ''2024-03-10'' ''2024-03-10'' ?s = Inr rs"
    and "\<lparr>sid = hid habitA, sname = hname habitA, streak = 2\<rparr> \<in> set rs"
    by blast
  with march_streaks have "\<lparr>sid = hid habitA, sname = hname habitA, streak = 2\<rparr>
      \<in> set [\<lparr>sid = ''B'', sname = ''Read'', streak = 3\<rparr>, \<lparr>sid = ''A'', sname = ''Run'', streak = 2\<rparr>]"
    by simp
  with h d c march_dates march_streaks show ?thesis
    by simp
qed

section \<open>The rows the award pass adds\<close>

lemma insertAchievement_rows:
  "set (achievements (insertAchievement t i e s))
    = insert \<lparr>atype = t, habit_id = i, earned_date = e\<rparr> (set (achievements s))"
  by (auto simp add: insertAchievement_def Let_def)

lemma awardPerfectDay_rows:
  "a \<in> set (achievements (awardPerfectDay date ids s)) \<Longrightarrow>
    a \<in> set (achievements s) \<or> habit_id a = None \<and> atype a = ''perfect_day''"
  by (auto simp add: awardPerfectDay_def insertAchievement_rows split: if_splits)

lemma awardStreaks_rows:
  "awardStreaks date ids s = Inr s' \<Longrightarrow> a \<in> set (achievements s') \<Longrightarrow>
    a \<in> set (achievements s) \<or> atype a \<in> {''streak_7'', ''streak_14'', ''streak_21''}"
proof (induction ids arbitrary: s)
  case Nil
  then show ?case by simp
next
  case (Cons i ids)
  from Cons.prems(1) obtain n where n: "countBack (completions s) i date 0 = Some n"
    by (auto split: option.splits)
  let ?s1 = "if 7 \<le> n then insertAchievement ''streak_7'' (Some i) date s else s"
  let ?s2 = "if 14 \<le> n then insertAchievement ''streak_14'' (Some i) date ?s1 else ?s1"
  let ?s3 = "if 21 \<le> n then insertAchievement ''streak_21'' (Some i) date ?s2 else ?s2"
  from Cons.prems(1) n have "awardStreaks date ids ?s3 = Inr s'"
    by (simp add: Let_def)
  from Cons.IH [OF this Cons.prems(2)]
  have "a \<in> set (achievements ?s3) \<or> atype a \<in> {''streak_7'', ''streak_14'', ''streak_21''}" .
  moreover have "b \<in> set (achievements ?s3) \<Longrightarrow>
      b \<in> set (achievements s) \<or> atype b \<in> {''streak_7'', ''streak_14'', ''streak_21''}" for b
    by (auto simp add: insertAchievement_rows split: if_splits)
  ultimately show ?case by blast
qed

lemma awardGlobalStreaks_rows:
  "a \<in> set (achievements (awardGlobalStreaks date ts s)) \<Longrightarrow>
    a \<in> set (achievements s) \<or> habit_id a = None \<and> (\<exists>t \<in> set ts. atype a = ''streak_'' @ show_nat t)"
proof (induction ts arbitrary: s)
  case Nil
  then show ?case by simp
next
  case (Cons t ts)
  let ?s1 = "if allStreak s date t 0
    then insertAchievement (''streak_'' @ show_nat t) None date s else s"
  from Cons.prems have "a \<in> set (achievements (awardGlobalStreaks date ts ?s1))"
    by simp
  from Cons.IH [OF this]
  have "a \<in> set (achievements ?s1)
      \<or> habit_id a = None \<and> (\<exists>t \<in> set ts. atype a = ''streak_'' @ show_nat t)" .
  moreover have "b \<in> set (achievements ?s1) \<Longrightarrow>
      b \<in> set (achievements s) \<or> habit_id b = None \<and> atype b = ''streak_'' @ show_nat t" for b
    by (auto simp add: insertAchievement_rows split: if_splits)
  ultimately show ?case by auto
qed

lemma awardHabitMonths_rows:
  "awardHabitMonths monthStr firstOfMonth days ids s = Inr s' \<Longrightarrow> a \<in> set (achievements s') \<Longrightarrow>
    a \<in> set (achievements s)
    \<or> atype a = ''perfect_month'' \<and> earned_date a = firstOfMonth
       \<and> (\<exists>h. habit_id a = Some (hid h)
             \<and> find (\<lambda>k. hid k = hid h) (habits s) = Some h \<and> \<not> firstOfMonth < created_date h)"
proof (induction ids arbitrary: s)
  case Nil
  then show ?case by simp
next
  case (Cons i ids)
  from Cons.prems(1) obtain h where h: "find (\<lambda>h. hid h = i) (habits s) = Some h"
    by (auto split: option.splits)
  then have hi: "hid h = i"
    by (auto simp add: find_Some_iff)
  show ?case
  proof (cases "firstOfMonth < created_date h")
    case True
    with Cons.prems(1) h have "awardHabitMonths monthStr firstOfMonth days ids s = Inr s'"
      by simp
    from Cons.IH [OF this Cons.prems(2)] show ?thesis .
  next
    case False
    let ?s1 = "if monthLoop (\<lambda>dayStr. (dayStr, i) \<in> set (completions s)) monthStr days 1
            then insertAchievement ''perfect_month'' (Some i) firstOfMonth s else s"
    have hs1: "habits ?s1 = habits s"
      by simp
    from Cons.prems(1) h False have "awardHabitMonths monthStr firstOfMonth days ids ?s1 = Inr s'"
      by simp
    from Cons.IH [OF this Cons.prems(2)]
    have "a \<in> set (achievements ?s1)
      \<or> atype a = ''perfect_month'' \<and> earned_date a = firstOfMonth
       \<and> (\<exists>h. habit_id a = Some (hid h)
             \<and> find (\<lambda>k. hid k = hid h) (habits s) = Some h \<and> \<not> firstOfMonth < created_date h)"
      unfolding hs1 .
    moreover have "a \<in> set (achievements ?s1) \<Longrightarrow> a \<in> set (achievements s)
      \<or> a = \<lparr>atype = ''perfect_month'', habit_id = Some i, earned_date = firstOfMonth\<rparr>"
      by (auto simp add: insertAchievement_rows split: if_splits)
    moreover have "atype a = ''perfect_month'' \<and> earned_date a = firstOfMonth
       \<and> (\<exists>h. habit_id a = Some (hid h)
             \<and> find (\<lambda>k. hid k = hid h) (habits s) = Some h \<and> \<not> firstOfMonth < created_date h)"
      if "a = \<lparr>atype = ''perfect_month'', habit_id = Some i, earned_date = firstOfMonth\<rparr>"
      using that h hi False by auto
    ultimately show ?thesis by blast
  qed
qed

lemma awardPerfectMonth_rows:
  assumes "awardPerfectMonth date ids s = Inr s'" and "a \<in> set (achievements s')"
  shows "a \<in> set (achievements s)
    \<or> atype a = ''perfect_month'' \<and> earned_date a = prevMonthStr date @ ''-01''
       \<and> (habit_id a = None
          \<or> (\<exists>h. habit_id a = Some (hid h)
             \<and> find (\<lambda>k. hid k = hid h) (habits s) = Some h \<and> \<not> earned_date a < created_date h))"
  using assms(1)
proof (cases rule: awardPerfectMonth_stages)
  case (1 days s4)
  from 1(2) assms(2) have "a \<in> set (achievements s4)
      \<or> a = \<lparr>atype = ''perfect_month'', habit_id = None, earned_date = prevMonthStr date @ ''-01''\<rparr>"
    by (auto simp add: insertAchievement_rows split: if_splits)
  then show ?thesis
  proof
    assume "a \<in> set (achievements s4)"
    from awardHabitMonths_rows [OF 1(1) this] show ?thesis by auto
  next
    assume "a = \<lparr>atype = ''perfect_month'', habit_id = None, earned_date = prevMonthStr date @ ''-01''\<rparr>"
    then show ?thesis by simp
  qed
qed

text \<open>The rows the award pass may add.\<close>

lemma checkAchievements_rows:
  assumes "checkAchievements date s = Inr s'" and "a \<in> set (achievements s')"
  shows "a \<in> set (achievements s)
    \<or> habit_id a = None \<and> atype a = ''perfect_day''
    \<or> atype a \<in> {''streak_7'', ''streak_14'', ''streak_21''}
    \<or> atype a = ''perfect_month'' \<and> earned_date a = prevMonthStr date @ ''-01''
       \<and> (habit_id a = None
          \<or> (\<exists>h. habit_id a = Some (hid h)
             \<and> find (\<lambda>k. hid k = hid h) (habits s) = Some h \<and> \<not> earned_date a < created_date h))"
  using assms(1)
proof (cases rule: checkAchievements_cases)
  case idle
  with assms(2) show ?thesis by simp
next
  case (run s2)
  let ?s3 = "awardGlobalStreaks date [7, 14, 21] s2"
  have hab: "habits ?s3 = habits s"
    using awardStreaks_frame [OF run(2)] by simp
  from awardPerfectMonth_rows [OF run(3) assms(2)] have
    "a \<in> set (achievements ?s3)
      \<or> atype a = ''perfect_month'' \<and> earned_date a = prevMonthStr date @ ''-01''
       \<and> (habit_id a = None
          \<or> (\<exists>h. habit_id a = Some (hid h)
             \<and> find (\<lambda>k. hid k = hid h) (habits s) = Some h \<and> \<not> earned_date a < created_date h))"
    unfolding hab .
  moreover have "a \<in> set (achievements ?s3) \<Longrightarrow> a \<in> set (achievements s2)
      \<or> atype a \<in> {''streak_7'', ''streak_14'', ''streak_21''}"
    using awardGlobalStreaks_rows [of a date "[7, 14, 21]" s2]
    by (auto simp add: show_nat_thresholds)
  moreover have "a \<in> set (achievements s2) \<Longrightarrow> a \<in> set (achievements s)
      \<or> habit_id a = None \<and> atype a = ''perfect_day''
      \<or> atype a \<in> {''streak_7'', ''streak_14'', ''streak_21''}"
    using awardStreaks_rows [OF run(2), of a] awardPerfectDay_rows [of a date _ s]
    by blast
  ultimately show ?thesis by blast
qed

text \<open>
  Claim C7. A habit created strictly after the first day \<open>F\<close> of a month is never granted
  a per-habit perfect month dated \<open>F\<close> by the award pass, whatever its completions: the
  pass adds no such row (ids are the primary key of the habits table, and dates are
  compared as text, as the source compares them).
\<close>

theorem perfect_month_needs_prior_existence:
  assumes "distinct (map hid (habits s))" and "h \<in> set (habits s)"
    and "F < created_date h"
    and "checkAchievements date s = Inr s'"
    and "\<lparr>atype = ''perfect_month'', habit_id = Some (hid h), earned_date = F\<rparr>
          \<notin> set (achievements s)"
  shows "\<lparr>atype = ''perfect_month'', habit_id = Some (hid h), earned_date = F\<rparr>
          \<notin> set (achievements s')"
proof
  let ?a = "\<lparr>atype = ''perfect_month'', habit_id = Some (hid h), earned_date = F\<rparr>"
  assume "?a \<in> set (achievements s')"
  from checkAchievements_rows [OF assms(4) this] assms(5) obtain k where
    k: "find (\<lambda>k. hid k = hid h) (habits s) = Some k" and "\<not> F < created_date k"
    by auto
  from k have "k \<in> set (habits s)" and "hid k = hid h"
    by (auto simp add: find_Some_iff)
  with assms(1,2) have "k = h"
    by (meson distinct_map inj_onD)
  with \<open>\<not> F < created_date k\<close> assms(3) show False by simp
qed

theorem perfect_month_needs_prior_existence_witness:
  "distinct (map hid [habitC, habitD]) \<and> habitD \<in> set [habitC, habitD]
   \<and> ''2024-02-01'' < created_date habitD
   \<and> list_all (\<lambda>d. (d, hid habitD) \<in> set febCompletions)
        [''2024-02-05'', ''2024-02-06'', ''2024-02-07'', ''2024-02-08'', ''2024-02-09'',
         ''2024-02-10'', ''2024-02-11'', ''2024-02-12'', ''2024-02-13'', ''2024-02-14'',
         ''2024-02-15'', ''2024-02-16'', ''2024-02-17'', ''2024-02-18'', ''2024-02-19'',
         ''2024-02-20'', ''2024-02-21'', ''2024-02-22'', ''2024-02-23'', ''2024-02-24'',
         ''2024-02-25'', ''2024-02-26'', ''2024-02-27'', ''2024-02-28'', ''2024-02-29'']
   \<and> checkAchievements ''2024-03-01''
        \<lparr>habits = [habitC, habitD], completions = febCompletions, achievements = []\<rparr>
      = Inr \<lparr>habits = [habitC, habitD], completions = febCompletions,
           achievements =
             [\<lparr>atype = ''perfect_month'', habit_id = Some ''C'', earned_date = ''2024-02-01''\<rparr>,
              \<lparr>atype = ''perfect_month'', habit_id = None, earned_date = ''2024-02-01''\<rparr>]\<rparr>
   \<and> \<lparr>atype = ''perfect_month'', habit_id = Some (hid habitD), earned_date = ''2024-02-01''\<rparr>
        \<notin> set [\<lparr>atype = ''perfect_month'', habit_id = Some ''C'', earned_date = ''2024-02-01''\<rparr>,
               \<lparr>atype = ''perfect_month'', habit_id = None, earned_date = ''2024-02-01''\<rparr>]"
proof -
  let ?s = "\<lparr>habits = [habitC, habitD], completions = febCompletions, achievements = []\<rparr>"
  have ids: "distinct (map hid (habits ?s))" and mem: "habitD \<in> set (habits ?s)"
    and late: "''2024-02-01'' < created_date habitD"
    by (simp_all add: habitC_def habitD_def)
  have none: "\<lparr>atype = ''perfect_month'', habit_id = Some (hid habitD), earned_date = ''2024-02-01''\<rparr>
      \<notin> set (achievements ?s)"
    by simp
  have days: "list_all (\<lambda>d. (d, hid habitD) \<in> set febCompletions)
        [''2024-02-05'', ''2024-02-06'', ''2024-02-07'', ''2024-02-08'', ''2024-02-09'',
         ''2024-02-10'', ''2024-02-11'', ''2024-02-12'', ''2024-02-13'', ''2024-02-14'',
         ''2024-02-15'', ''2024-02-16'', ''2024-02-17'', ''2024-02-18'', ''2024-02-19'',
         ''2024-02-20'', ''2024-02-21'', ''2024-02-22'', ''2024-02-23'', ''2024-02-24'',
         ''2024-02-25'', ''2024-02-26'', ''2024-02-27'', ''2024-02-28'', ''2024-02-29'']"
    by (simp add: habitD_def febCompletions_def)
  from perfect_month_needs_prior_existence [OF ids mem late feb_award none]
  have "\<lparr>atype = ''perfect_month'', habit_id = Some (hid habitD), earned_date = ''2024-02-01''\<rparr>
        \<notin> set [\<lparr>atype = ''perfect_month'', habit_id = Some ''C'', earned_date = ''2024-02-01''\<rparr>,
               \<lparr>atype = ''perfect_month'', habit_id = None, earned_date = ''2024-02-01''\<rparr>]"
    by simp
  with ids mem late days feb_award show ?thesis
    by simp
qed

section \<open>The perfect month is dated the first of a month\<close>

lemma num_minus: "num (CHR ''-'' # cs) = None"
  by (simp add: num_def digit_val_minus)

lemma read_int_show_int: "read_int (show_int y) = Some y"
proof (cases "y < 0")
  case True
  then show ?thesis
    by (simp add: read_int_def show_int_def num_show_nat)
next
  case False
  obtain c cs where cs: "show_nat (nat y) = c # cs"
    using show_nat_not_Nil [of "nat y"] by (cases "show_nat (nat y)") auto
  have "c \<noteq> CHR ''-''"
    using num_show_nat [of "nat y"] num_minus [of cs] cs by auto
  with False cs num_show_nat [of "nat y"] show ?thesis
    by (simp add: read_int_def show_int_def)
qed

lemma isFirstOfMonth_format:
  assumes "1 \<le> m" and "m \<le> 12"
  shows "isFirstOfMonth (show_int y @ ''-'' @ pad2 m @ ''-01'')"
proof -
  have "length (pad2 m) = 2"
    using assms by (simp add: length_pad2)
  then have "take (length (show_int y @ ''-'' @ pad2 m @ ''-01'') - 6)
      (show_int y @ ''-'' @ pad2 m @ ''-01'') = show_int y"
    by simp
  moreover have "m \<in> set [1, 2, 3, 4, 5, 6, 7, 8, 9, 10, 11, 12]"
    using assms by simp arith
  ultimately show ?thesis
    unfolding isFirstOfMonth_def by (auto simp add: read_int_show_int list_ex_iff)
qed

lemma splitOn_whole: "c \<notin> set s \<Longrightarrow> splitOn c s = [s]"
  by (induction s) auto

lemma splitOn_part: "c \<notin> set a \<Longrightarrow> splitOn c (a @ c # r) = a # splitOn c r"
  by (induction a) auto

lemma jsNumber_digits:
  assumes "num ds = Some n" and "n \<le> 12"
  shows "jsNumber ds = Num n"
  using assms num_hd_digit [OF assms(1)] by (simp add: jsNumber_def Let_def)

lemma digit_val_bound: "digit_val c = Some v \<Longrightarrow> v < 10"
  by (auto simp add: digit_val_def split: if_splits)

lemma digits_acc_bound: "digits_acc t a = Some v \<Longrightarrow> v < (a + 1) * 10 ^ length t"
proof (induction t arbitrary: a)
  case Nil
  then show ?case by simp
next
  case (Cons c cs)
  from Cons.prems obtain d where d: "digit_val c = Some d" and v: "digits_acc cs (10 * a + d) = Some v"
    by (auto split: option.splits)
  from Cons.IH [OF v] have "v < (10 * a + d + 1) * 10 ^ length cs" .
  also have "\<dots> \<le> (10 * a + 10) * 10 ^ length cs"
    using digit_val_bound [OF d] by (intro mult_right_mono) simp_all
  finally show ?case by (simp add: algebra_simps)
qed

lemma jsNumber_year:
  assumes "num ds = Some n" and "length ds = 4"
  shows "jsNumber ds = Num n"
proof -
  from assms(1) obtain v where v: "digits_acc ds 0 = Some v" and n: "n = int v"
    by (auto simp add: num_def split: if_splits)
  from digits_acc_bound [OF v] assms(2) have "v < 10000"
    by simp
  with n have "n \<le> 9007199254740992"
    by simp
  with assms(1) num_hd_digit [OF assms(1)] show ?thesis
    by (simp add: jsNumber_def Let_def)
qed

text \<open>The year and the month the award pass reads from a date in the form \<^verbatim>\<open>YYYY-MM-DD\<close>.\<close>

lemma yearMonth_isoDate:
  assumes "isoDate date"
  shows "\<exists>y m. yearMonth date = (Num y, Num m) \<and> 1 \<le> m \<and> m \<le> 12"
proof -
  let ?a = "take 4 date" and ?b = "take 2 (drop 5 date)" and ?c = "drop 8 date"
  from assms obtain y m d where len: "length date = 10"
    and sep: "date ! 4 = CHR ''-''" "date ! 7 = CHR ''-''"
    and y: "num ?a = Some y" and m: "num ?b = Some m" and d: "num ?c = Some d"
    and bounds: "1 \<le> m" "m \<le> 12"
    by (auto simp add: isoDate_def split: option.splits)
  have "date = ?a @ date ! 4 # drop 5 date"
    using len id_take_nth_drop [of 4 date] by simp
  moreover have "drop 5 date = ?b @ drop 5 date ! 2 # drop 3 (drop 5 date)"
    using len id_take_nth_drop [of 2 "drop 5 date"] by simp
  ultimately have parts: "date = ?a @ CHR ''-'' # ?b @ CHR ''-'' # ?c"
    using len sep by simp
  have free: "CHR ''-'' \<notin> set ?a" "CHR ''-'' \<notin> set ?b" "CHR ''-'' \<notin> set ?c"
    using y m d num_no_minus by blast+
  have "splitOn CHR ''-'' (?a @ CHR ''-'' # ?b @ CHR ''-'' # ?c) = [?a, ?b, ?c]"
    using free by (simp add: splitOn_part splitOn_whole)
  with parts have "splitOn CHR ''-'' date = [?a, ?b, ?c]"
    by simp
  then have "yearMonth date = (jsNumber ?a, jsNumber ?b)"
    by (simp add: yearMonth_def)
  moreover have "jsNumber ?a = Num y"
    using y len by (simp add: jsNumber_year)
  moreover have "jsNumber ?b = Num m"
    using m bounds by (simp add: jsNumber_digits)
  ultimately show ?thesis
    using bounds by simp
qed

lemma isFirstOfMonth_prevMonthStr:
  assumes "isoDate date"
  shows "isFirstOfMonth (prevMonthStr date @ ''-01'')"
proof -
  from yearMonth_isoDate [OF assms] obtain y m where
    ym: "yearMonth date = (Num y, Num m)" and m: "1 \<le> m" "m \<le> 12"
    by blast
  show ?thesis
  proof (cases "m = 1")
    case True
    with ym have "prevMonthStr date @ ''-01'' = show_int (y - 1) @ ''-'' @ pad2 12 @ ''-01''"
      by (simp add: prevMonthStr_def jsString_def jsMinus_def pad2_def)
    then show ?thesis
      using isFirstOfMonth_format [of 12 "y - 1"] by simp
  next
    case False
    with ym have "prevMonthStr date @ ''-01'' = show_int y @ ''-'' @ pad2 (m - 1) @ ''-01''"
      by (simp add: prevMonthStr_def jsString_def jsMinus_def pad2_def)
    then show ?thesis
      using isFirstOfMonth_format [of "m - 1" y] m False by simp
  qed
qed

lemma monthInvariant_iff:
  "monthInvariant s \<longleftrightarrow>
    (\<forall>a \<in> set (achievements s). atype a = ''perfect_month'' \<longrightarrow> isFirstOfMonth (earned_date a))"
  by (simp add: monthInvariant_def list_all_iff)

text \<open>
  Claim C8, as the code has it. If every perfect month of the achievements table,
  per-habit or global, is dated the first day of a calendar month, then so is every
  perfect month of the table after an invalidation pass, for any date, and after an award
  pass whose date is in the form \<^verbatim>\<open>YYYY-MM-DD\<close>; with dated completions the award pass for
  such a date returns, with such a table.
\<close>

theorem perfect_month_dated_first_of_month:
  assumes "monthInvariant s"
  shows "(isoDate date \<longrightarrow> (\<forall>s'. checkAchievements date s = Inr s' \<longrightarrow> monthInvariant s'))
    \<and> monthInvariant (removeInvalidAchievements day habitId s)
    \<and> (isoDate date \<and> datedCompletions (completions s) \<longrightarrow>
          (\<exists>s'. checkAchievements date s = Inr s' \<and> monthInvariant s'))"
proof -
  have award: "monthInvariant s'" if "isoDate date" and "checkAchievements date s = Inr s'" for s'
    unfolding monthInvariant_iff
  proof (intro ballI impI)
    fix a
    assume a: "a \<in> set (achievements s')" and m: "atype a = ''perfect_month''"
    from checkAchievements_rows [OF that(2) a] m
    have "a \<in> set (achievements s) \<or> earned_date a = prevMonthStr date @ ''-01''"
      by auto
    then show "isFirstOfMonth (earned_date a)"
      using assms m isFirstOfMonth_prevMonthStr [OF that(1)] by (auto simp add: monthInvariant_iff)
  qed
  have remove: "monthInvariant (removeInvalidAchievements day habitId s)"
    using assms unfolding monthInvariant_iff removeInvalidAchievements_rows by simp
  from award remove checkAchievements_returns [of s date]
  show ?thesis
    by blast
qed

theorem perfect_month_dated_first_of_month_witness:
  "monthInvariant \<lparr>habits = [habitC, habitD], completions = febCompletions, achievements = []\<rparr>
   \<and> isoDate ''2024-03-01'' \<and> datedCompletions febCompletions
   \<and> checkAchievements ''2024-03-01''
        \<lparr>habits = [habitC, habitD], completions = febCompletions, achievements = []\<rparr>
      = Inr \<lparr>habits = [habitC, habitD], completions = febCompletions,
           achievements =
             [\<lparr>atype = ''perfect_month'', habit_id = Some ''C'', earned_date = ''2024-02-01''\<rparr>,
              \<lparr>atype = ''perfect_month'', habit_id = None, earned_date = ''2024-02-01''\<rparr>]\<rparr>
   \<and> monthInvariant \<lparr>habits = [habitC, habitD], completions = febCompletions,
           achievements =
             [\<lparr>atype = ''perfect_month'', habit_id = Some ''C'', earned_date = ''2024-02-01''\<rparr>,
              \<lparr>atype = ''perfect_month'', habit_id = None, earned_date = ''2024-02-01''\<rparr>]\<rparr>
   \<and> isFirstOfMonth ''2024-02-01''
   \<and> monthInvariant (removeInvalidAchievements ''2024-02-10'' ''C''
        \<lparr>habits = [habitC, habitD], completions = febCompletions,
           achievements =
             [\<lparr>atype = ''perfect_month'', habit_id = Some ''C'', earned_date = ''2024-02-01''\<rparr>,
              \<lparr>atype = ''perfect_month'', habit_id = None, earned_date = ''2024-02-01''\<rparr>]\<rparr>)"
proof -
  let ?s = "\<lparr>habits = [habitC, habitD], completions = febCompletions, achievements = []\<rparr>"
  let ?t = "\<lparr>habits = [habitC, habitD], completions = febCompletions,
      achievements =
        [\<lparr>atype = ''perfect_month'', habit_id = Some ''C'', earned_date = ''2024-02-01''\<rparr>,
         \<lparr>atype = ''perfect_month'', habit_id = None, earned_date = ''2024-02-01''\<rparr>]\<rparr>"
  have inv: "monthInvariant ?s"
    by (simp add: monthInvariant_def)
  note step = perfect_month_dated_first_of_month [OF inv, of "''2024-03-01''" "''2024-02-10''" "''C''"]
  from step feb_award feb_dates(1) have after: "monthInvariant ?t"
    by simp
  from perfect_month_dated_first_of_month [OF after, of "''2024-03-01''" "''2024-02-10''" "''C''"]
  have "monthInvariant (removeInvalidAchievements ''2024-02-10'' ''C'' ?t)"
    by blast
  with inv feb_award after feb_dates feb_completions_dated show ?thesis
    by blast
qed

text \<open>
  The claim as the specification states it, for every invocation of the award pass,
  fails: the pass does not check that its argument is a date. For the argument
  \<^verbatim>\<open>garbage\<close> and a table with one habit, whose achievements are empty, it returns a table
  with two perfect months dated \<^verbatim>\<open>NaN-NaN-01\<close>, which is not the first day of a month.
\<close>

theorem perfect_month_on_non_date_counterexample:
  "monthInvariant
      \<lparr>habits = [\<lparr>hid = ''A'', hname = ''Run'', created_date = ''2024-01-01'', deleted = False,
                   deleted_date = None, sort_order = 0\<rparr>],
       completions = [], achievements = []\<rparr>
   \<and> checkAchievements ''garbage''
      \<lparr>habits = [\<lparr>hid = ''A'', hname = ''Run'', created_date = ''2024-01-01'', deleted = False,
                   deleted_date = None, sort_order = 0\<rparr>],
       completions = [], achievements = []\<rparr>
    = Inr \<lparr>habits = [\<lparr>hid = ''A'', hname = ''Run'', created_date = ''2024-01-01'',
                       deleted = False, deleted_date = None, sort_order = 0\<rparr>],
           completions = [],
           achievements =
             [\<lparr>atype = ''perfect_month'', habit_id = Some ''A'', earned_date = ''NaN-NaN-01''\<rparr>,
              \<lparr>atype = ''perfect_month'', habit_id = None, earned_date = ''NaN-NaN-01''\<rparr>]\<rparr>
   \<and> \<not> isFirstOfMonth ''NaN-NaN-01''
   \<and> \<not> monthInvariant
      \<lparr>habits = [\<lparr>hid = ''A'', hname = ''Run'', created_date = ''2024-01-01'', deleted = False,
                   deleted_date = None, sort_order = 0\<rparr>],
       completions = [],
       achievements =
         [\<lparr>atype = ''perfect_month'', habit_id = Some ''A'', earned_date = ''NaN-NaN-01''\<rparr>,
          \<lparr>atype = ''perfect_month'', habit_id = None, earned_date = ''NaN-NaN-01''\<rparr>]\<rparr>"
proof -
  have "\<not> isFirstOfMonth ''NaN-NaN-01''"
    by (simp add: isFirstOfMonth_def read_int_def num_def digit_val_def)
  with garbage_award show ?thesis
    by (simp add: monthInvariant_def)
qed

section \<open>The day view\<close>

lemma getDayView_ids:
  "row_id ` set (getDayView date s) = hid ` {h \<in> set (habits s). visibleOn h date}"
proof -
  let ?rows = "\<lambda>h. let matches = filter (\<lambda>c. snd c = hid h \<and> fst c = date) (completions s) in
        if matches = []
        then [\<lparr>row_id = hid h, row_name = hname h, completed = False, row_deleted = deleted h\<rparr>]
        else map (\<lambda>c. \<lparr>row_id = hid h, row_name = hname h, completed = True,
                         row_deleted = deleted h\<rparr>) matches"
  have one: "row_id ` set (?rows h) = {hid h}" for h
    by (auto simp add: Let_def image_iff filter_empty_conv)
  have "row_id ` set (getDayView date s)
      = (\<Union>h \<in> {h \<in> set (habits s). visibleOn h date}. row_id ` set (?rows h))"
    unfolding getDayView_def by (auto simp add: image_UN)
  also have "\<dots> = hid ` {h \<in> set (habits s). visibleOn h date}"
    unfolding one by auto
  finally show ?thesis .
qed

text \<open>
  Claim C2, as the code has it. A habit with \<open>deleted\<close> set and deletion date \<open>D\<close> is in
  the day view of a date exactly when the date is strictly before \<open>D\<close>: it is left out on
  \<open>D\<close> itself and on every later date (ids are the primary key of the habits table).
\<close>

theorem dayview_deleted_habit:
  assumes "distinct (map hid (habits s))" and "h \<in> set (habits s)"
    and "deleted h" and "deleted_date h = Some D"
  shows "hid h \<in> row_id ` set (getDayView date s) \<longleftrightarrow> date < D"
proof -
  have "hid h \<in> row_id ` set (getDayView date s) \<longleftrightarrow> visibleOn h date"
  proof
    assume "hid h \<in> row_id ` set (getDayView date s)"
    then obtain k where k: "k \<in> set (habits s)" "visibleOn k date" "hid k = hid h"
      unfolding getDayView_ids by auto
    with assms(1,2) have "k = h"
      by (meson distinct_map inj_onD)
    with k show "visibleOn h date" by simp
  next
    assume "visibleOn h date"
    with assms(2) show "hid h \<in> row_id ` set (getDayView date s)"
      unfolding getDayView_ids by blast
  qed
  also have "\<dots> \<longleftrightarrow> date < D"
    using assms(3,4) by (auto simp add: visibleOn_def)
  finally show ?thesis .
qed

theorem dayview_deleted_habit_witness:
  "distinct (map hid [deletedHabit]) \<and> deletedHabit \<in> set [deletedHabit]
   \<and> deleted deletedHabit \<and> deleted_date deletedHabit = Some ''2024-01-10''
   \<and> ''2024-01-09'' < ''2024-01-10''
   \<and> hid deletedHabit \<in> row_id ` set (getDayView ''2024-01-09''
        \<lparr>habits = [deletedHabit], completions = [(''2024-01-10'', ''A'')], achievements = []\<rparr>)
   \<and> \<not> ''2024-01-10'' < ''2024-01-10''
   \<and> hid deletedHabit \<notin> row_id ` set (getDayView ''2024-01-10''
        \<lparr>habits = [deletedHabit], completions = [(''2024-01-10'', ''A'')], achievements = []\<rparr>)"
proof -
  let ?s = "\<lparr>habits = [deletedHabit], completions = [(''2024-01-10'', ''A'')], achievements = []\<rparr>"
  have h: "distinct (map hid (habits ?s))" "deletedHabit \<in> set (habits ?s)"
      "deleted deletedHabit" "deleted_date deletedHabit = Some ''2024-01-10''"
    by (simp_all add: deletedHabit_def)
  have before: "''2024-01-09'' < ''2024-01-10''" and same: "\<not> ''2024-01-10'' < ''2024-01-10''"
    by simp_all
  from dayview_deleted_habit [OF h, of "''2024-01-09''"] before
  have 1: "hid deletedHabit \<in> row_id ` set (getDayView ''2024-01-09'' ?s)"
    by blast
  from dayview_deleted_habit [OF h, of "''2024-01-10''"] same
  have 2: "hid deletedHabit \<notin> row_id ` set (getDayView ''2024-01-10'' ?s)"
    by blast
  from h before same 1 2 show ?thesis
    by simp
qed

text \<open>
  The claim as the specification states it, that the habit is in the day view of the
  deletion date itself, fails: the view of 2024-01-10 is empty for a habit deleted on
  2024-01-10, and the view of the day before holds it.
\<close>

theorem dayview_on_deletion_day_counterexample:
  "deleted \<lparr>hid = ''A'', hname = ''Run'', created_date = ''2024-01-01'', deleted = True,
             deleted_date = Some ''2024-01-10'', sort_order = 0\<rparr>
   \<and> deleted_date \<lparr>hid = ''A'', hname = ''Run'', created_date = ''2024-01-01'', deleted = True,
             deleted_date = Some ''2024-01-10'', sort_order = 0\<rparr> = Some ''2024-01-10''
   \<and> getDayView ''2024-01-10''
        \<lparr>habits = [\<lparr>hid = ''A'', hname = ''Run'', created_date = ''2024-01-01'', deleted = True,
                     deleted_date = Some ''2024-01-10'', sort_order = 0\<rparr>],
         completions = [(''2024-01-10'', ''A'')], achievements = []\<rparr> = []
   \<and> getDayView ''2024-01-09''
        \<lparr>habits = [\<lparr>hid = ''A'', hname = ''Run'', created_date = ''2024-01-01'', deleted = True,
                     deleted_date = Some ''2024-01-10'', sort_order = 0\<rparr>],
         completions = [(''2024-01-10'', ''A'')], achievements = []\<rparr>
      = [\<lparr>row_id = ''A'', row_name = ''Run'', completed = False, row_deleted = True\<rparr>]"
  by (simp add: getDayView_def visibleOn_def)


section \<open>Awarding twice\<close>

lemma globalRowsAdded_refl: "globalRowsAdded t t"
  by (simp add: globalRowsAdded_def)

lemma globalRowsAdded_trans:
  assumes "globalRowsAdded t u" and "globalRowsAdded u v"
  shows "globalRowsAdded t v"
proof -
  from assms(1) obtain ns where u: "achievements u = achievements t @ ns"
    and ns: "\<forall>a \<in> set ns. habit_id a = None \<and> a \<in> set (achievements t)"
    unfolding globalRowsAdded_def list_all_iff
    by (metis append_take_drop_id)
  from assms(2) obtain ms where v: "achievements v = achievements u @ ms"
    and ms: "\<forall>a \<in> set ms. habit_id a = None \<and> a \<in> set (achievements u)"
    unfolding globalRowsAdded_def list_all_iff
    by (metis append_take_drop_id)
  have "achievements v = achievements t @ (ns @ ms)"
    using u v by simp
  moreover have "\<forall>a \<in> set (ns @ ms). habit_id a = None \<and> a \<in> set (achievements t)"
    using ns ms u by auto
  ultimately show ?thesis
    using assms unfolding globalRowsAdded_def list_all_iff by simp
qed

lemma globalRowsAdded_insert:
  assumes "\<lparr>atype = ty, habit_id = None, earned_date = e\<rparr> \<in> set (achievements t)"
  shows "globalRowsAdded t (insertAchievement ty None e t)"
  using assms by (simp add: globalRowsAdded_def insertAchievement_def)

lemma globalRowsAdded_set:
  "globalRowsAdded t t' \<Longrightarrow> set (achievements t') = set (achievements t)"
proof -
  assume a: "globalRowsAdded t t'"
  then obtain ns where "achievements t' = achievements t @ ns"
    and "\<forall>a \<in> set ns. habit_id a = None \<and> a \<in> set (achievements t)"
    unfolding globalRowsAdded_def list_all_iff
    by (metis append_take_drop_id)
  then show ?thesis by auto
qed

lemma globalRowsAdded_per_habit:
  "globalRowsAdded t t' \<Longrightarrow>
    filter (\<lambda>a. habit_id a \<noteq> None) (achievements t') = filter (\<lambda>a. habit_id a \<noteq> None) (achievements t)"
proof -
  assume a: "globalRowsAdded t t'"
  then obtain ns where t': "achievements t' = achievements t @ ns"
    and ns: "\<forall>a \<in> set ns. habit_id a = None \<and> a \<in> set (achievements t)"
    unfolding globalRowsAdded_def list_all_iff
    by (metis append_take_drop_id)
  from ns have "filter (\<lambda>a. habit_id a \<noteq> None) ns = []"
    by (simp add: filter_empty_conv)
  with t' show ?thesis by simp
qed

lemma insertAchievement_present:
  "\<lparr>atype = ty, habit_id = Some i, earned_date = e\<rparr> \<in> set (achievements t) \<Longrightarrow>
    insertAchievement ty (Some i) e t = t"
  by (simp add: insertAchievement_def)

lemma insertAchievement_grows: "set (achievements s) \<subseteq> set (achievements (insertAchievement ty i e s))"
  by (auto simp add: insertAchievement_rows)

lemma insertAchievement_has:
  "\<lparr>atype = ty, habit_id = i, earned_date = e\<rparr> \<in> set (achievements (insertAchievement ty i e s))"
  by (simp add: insertAchievement_rows)

lemma awardStreaks_grows:
  "awardStreaks date ids s = Inr s' \<Longrightarrow> set (achievements s) \<subseteq> set (achievements s')"
proof (induction ids arbitrary: s)
  case Nil
  then show ?case by simp
next
  case (Cons i ids)
  from Cons.prems obtain n where n: "countBack (completions s) i date 0 = Some n"
    by (auto split: option.splits)
  let ?s1 = "if 7 \<le> n then insertAchievement ''streak_7'' (Some i) date s else s"
  let ?s2 = "if 14 \<le> n then insertAchievement ''streak_14'' (Some i) date ?s1 else ?s1"
  let ?s3 = "if 21 \<le> n then insertAchievement ''streak_21'' (Some i) date ?s2 else ?s2"
  from Cons.prems n have "awardStreaks date ids ?s3 = Inr s'"
    by (simp add: Let_def)
  from Cons.IH [OF this] have "set (achievements ?s3) \<subseteq> set (achievements s')" .
  moreover have "set (achievements s) \<subseteq> set (achievements ?s3)"
    by (auto simp add: insertAchievement_rows)
  ultimately show ?case by blast
qed

lemma awardStreaks_again:
  "awardStreaks date ids s = Inr s' \<Longrightarrow> completions t = completions s \<Longrightarrow>
    set (achievements s') \<subseteq> set (achievements t) \<Longrightarrow> awardStreaks date ids t = Inr t"
proof (induction ids arbitrary: s)
  case Nil
  then show ?case by simp
next
  case (Cons i ids)
  from Cons.prems(1) obtain n where n: "countBack (completions s) i date 0 = Some n"
    by (auto split: option.splits)
  let ?s1 = "if 7 \<le> n then insertAchievement ''streak_7'' (Some i) date s else s"
  let ?s2 = "if 14 \<le> n then insertAchievement ''streak_14'' (Some i) date ?s1 else ?s1"
  let ?s3 = "if 21 \<le> n then insertAchievement ''streak_21'' (Some i) date ?s2 else ?s2"
  from Cons.prems(1) n have rest: "awardStreaks date ids ?s3 = Inr s'"
    by (simp add: Let_def)
  have cs3: "completions t = completions ?s3"
    using Cons.prems(2) by simp
  from awardStreaks_grows [OF rest] Cons.prems(3)
  have sub: "set (achievements ?s3) \<subseteq> set (achievements t)"
    by blast
  have 7: "7 \<le> n \<Longrightarrow> \<lparr>atype = ''streak_7'', habit_id = Some i, earned_date = date\<rparr>
      \<in> set (achievements t)"
    using sub by (auto simp add: insertAchievement_rows split: if_splits)
  have 14: "14 \<le> n \<Longrightarrow> \<lparr>atype = ''streak_14'', habit_id = Some i, earned_date = date\<rparr>
      \<in> set (achievements t)"
    using sub by (auto simp add: insertAchievement_rows split: if_splits)
  have 21: "21 \<le> n \<Longrightarrow> \<lparr>atype = ''streak_21'', habit_id = Some i, earned_date = date\<rparr>
      \<in> set (achievements t)"
    using sub by (auto simp add: insertAchievement_rows split: if_splits)
  have n': "countBack (completions t) i date 0 = Some n"
    using n Cons.prems(2) by simp
  have same: "(if 21 \<le> n then insertAchievement ''streak_21'' (Some i) date
        (if 14 \<le> n then insertAchievement ''streak_14'' (Some i) date
          (if 7 \<le> n then insertAchievement ''streak_7'' (Some i) date t else t)
         else (if 7 \<le> n then insertAchievement ''streak_7'' (Some i) date t else t))
       else (if 14 \<le> n then insertAchievement ''streak_14'' (Some i) date
          (if 7 \<le> n then insertAchievement ''streak_7'' (Some i) date t else t)
         else (if 7 \<le> n then insertAchievement ''streak_7'' (Some i) date t else t))) = t"
    using 7 14 21 by (simp add: insertAchievement_present)
  have "awardStreaks date (i # ids) t = awardStreaks date ids t"
    unfolding awardStreaks.simps n' option.case Let_def same ..
  also have "\<dots> = Inr t"
    using rest cs3 Cons.prems(3) by (rule Cons.IH)
  finally show ?case .
qed

lemma awardHabitMonths_grows:
  "awardHabitMonths monthStr firstOfMonth days ids s = Inr s' \<Longrightarrow>
    set (achievements s) \<subseteq> set (achievements s')"
proof (induction ids arbitrary: s)
  case Nil
  then show ?case by simp
next
  case (Cons i ids)
  from Cons.prems obtain h where h: "find (\<lambda>h. hid h = i) (habits s) = Some h"
    by (auto split: option.splits)
  let ?s1 = "if firstOfMonth < created_date h then s
    else if monthLoop (\<lambda>dayStr. (dayStr, i) \<in> set (completions s)) monthStr days 1
         then insertAchievement ''perfect_month'' (Some i) firstOfMonth s else s"
  from Cons.prems h have "awardHabitMonths monthStr firstOfMonth days ids ?s1 = Inr s'"
    by (simp split: if_splits)
  from Cons.IH [OF this] have "set (achievements ?s1) \<subseteq> set (achievements s')" .
  moreover have "set (achievements s) \<subseteq> set (achievements ?s1)"
    by (auto simp add: insertAchievement_rows)
  ultimately show ?case by blast
qed

lemma awardHabitMonths_again:
  "awardHabitMonths monthStr firstOfMonth days ids s = Inr s' \<Longrightarrow>
    habits t = habits s \<Longrightarrow> completions t = completions s \<Longrightarrow>
    set (achievements s') \<subseteq> set (achievements t) \<Longrightarrow>
    awardHabitMonths monthStr firstOfMonth days ids t = Inr t"
proof (induction ids arbitrary: s)
  case Nil
  then show ?case by simp
next
  case (Cons i ids)
  from Cons.prems(1) obtain h where h: "find (\<lambda>h. hid h = i) (habits s) = Some h"
    by (auto split: option.splits)
  let ?go = "monthLoop (\<lambda>dayStr. (dayStr, i) \<in> set (completions s)) monthStr days 1"
  let ?s1 = "if firstOfMonth < created_date h then s
    else if ?go then insertAchievement ''perfect_month'' (Some i) firstOfMonth s else s"
  from Cons.prems(1) h have rest: "awardHabitMonths monthStr firstOfMonth days ids ?s1 = Inr s'"
    by (simp split: if_splits)
  have tabs: "habits t = habits ?s1" "completions t = completions ?s1"
    using Cons.prems(2,3) by simp_all
  from awardHabitMonths_grows [OF rest] Cons.prems(4)
  have sub: "set (achievements ?s1) \<subseteq> set (achievements t)"
    by blast
  have row: "\<not> firstOfMonth < created_date h \<Longrightarrow> ?go \<Longrightarrow>
      \<lparr>atype = ''perfect_month'', habit_id = Some i, earned_date = firstOfMonth\<rparr>
        \<in> set (achievements t)"
    using sub by (auto simp add: insertAchievement_rows)
  have h': "find (\<lambda>h. hid h = i) (habits t) = Some h"
    using h Cons.prems(2) by simp
  have "awardHabitMonths monthStr firstOfMonth days (i # ids) t
      = awardHabitMonths monthStr firstOfMonth days ids t"
    using row by (simp add: h' Cons.prems(3) insertAchievement_present)
  also have "\<dots> = Inr t"
    using rest tabs Cons.prems(4) by (rule Cons.IH)
  finally show ?case .
qed

lemma dayComplete_tables:
  "habits t = habits s \<Longrightarrow> completions t = completions s \<Longrightarrow> dayComplete t = dayComplete s"
  by (rule ext) (simp add: dayComplete_def)

lemma allStreak_tables:
  "habits t = habits s \<Longrightarrow> completions t = completions s \<Longrightarrow>
    allStreak t date threshold i = allStreak s date threshold i"
proof (induction s date threshold i rule: allStreak.induct)
  case (1 s date threshold i)
  show ?case
  proof (cases "i < threshold \<and> dayComplete s (shiftDateStr date (- int i))")
    case False
    with dayComplete_tables [OF "1.prems"] show ?thesis
      by (subst allStreak.simps, subst (2) allStreak.simps) auto
  next
    case True
    with "1.IH" "1.prems"
    have "allStreak t date threshold (i + 1) = allStreak s date threshold (i + 1)"
      by simp
    with True dayComplete_tables [OF "1.prems"] show ?thesis
      by (subst allStreak.simps, subst (2) allStreak.simps) simp
  qed
qed

lemma awardGlobalStreaks_grows:
  "set (achievements s) \<subseteq> set (achievements (awardGlobalStreaks date ts s))"
proof (induction ts arbitrary: s)
  case Nil
  then show ?case by simp
next
  case (Cons th ts)
  let ?s1 = "if allStreak s date th 0
    then insertAchievement (''streak_'' @ show_nat th) None date s else s"
  have "set (achievements ?s1) \<subseteq> set (achievements (awardGlobalStreaks date ts ?s1))"
    by (rule Cons.IH)
  moreover have "set (achievements s) \<subseteq> set (achievements ?s1)"
    by (auto simp add: insertAchievement_rows)
  ultimately show ?case by auto
qed

lemma awardGlobalStreaks_again:
  "habits t = habits s \<Longrightarrow> completions t = completions s \<Longrightarrow>
    set (achievements (awardGlobalStreaks date ts s)) \<subseteq> set (achievements t) \<Longrightarrow>
    globalRowsAdded t (awardGlobalStreaks date ts t)"
proof (induction ts arbitrary: s t)
  case Nil
  then show ?case by (simp add: globalRowsAdded_refl)
next
  case (Cons th ts)
  let ?ok = "allStreak s date th 0"
  let ?s1 = "if ?ok then insertAchievement (''streak_'' @ show_nat th) None date s else s"
  let ?t1 = "if ?ok then insertAchievement (''streak_'' @ show_nat th) None date t else t"
  have ok': "allStreak t date th 0 = ?ok"
    using allStreak_tables [OF Cons.prems(1,2)] .
  have all: "set (achievements (awardGlobalStreaks date ts ?s1)) \<subseteq> set (achievements t)"
    using Cons.prems(3) by simp
  with awardGlobalStreaks_grows [of ?s1 date ts]
  have sub: "set (achievements ?s1) \<subseteq> set (achievements t)"
    by blast
  have step: "globalRowsAdded t ?t1"
  proof (cases ?ok)
    case True
    with sub have "\<lparr>atype = ''streak_'' @ show_nat th, habit_id = None, earned_date = date\<rparr>
        \<in> set (achievements t)"
      by (auto simp add: insertAchievement_rows)
    with True show ?thesis by (simp add: globalRowsAdded_insert)
  next
    case False
    then show ?thesis by (simp add: globalRowsAdded_refl)
  qed
  have tabs: "habits ?t1 = habits ?s1" "completions ?t1 = completions ?s1"
    using Cons.prems(1,2) by simp_all
  have "set (achievements (awardGlobalStreaks date ts ?s1)) \<subseteq> set (achievements ?t1)"
    using all globalRowsAdded_set [OF step] by simp
  with tabs have more: "globalRowsAdded ?t1 (awardGlobalStreaks date ts ?t1)"
    by (rule Cons.IH)
  have "awardGlobalStreaks date (th # ts) t = awardGlobalStreaks date ts ?t1"
    by (simp add: ok')
  moreover from step more have "globalRowsAdded t (awardGlobalStreaks date ts ?t1)"
    by (rule globalRowsAdded_trans)
  ultimately show ?case by simp
qed

lemma awardPerfectMonth_grows:
  assumes "awardPerfectMonth date ids s = Inr s'"
  shows "set (achievements s) \<subseteq> set (achievements s')"
  using assms
proof (cases rule: awardPerfectMonth_stages)
  case (1 days s4)
  from awardHabitMonths_grows [OF 1(1)] 1(2) show ?thesis
    by (auto simp add: insertAchievement_rows)
qed

lemma awardPerfectMonth_again:
  assumes "awardPerfectMonth date ids s = Inr s'"
    and "habits t = habits s" and "completions t = completions s"
    and "set (achievements s') \<subseteq> set (achievements t)"
  shows "\<exists>t'. awardPerfectMonth date ids t = Inr t' \<and> globalRowsAdded t t'"
proof -
  let ?ms = "prevMonthStr date"
  let ?first = "prevMonthStr date @ ''-01''"
  let ?days = "daysInMonth (if snd (yearMonth date) = Num 1 then jsMinus (fst (yearMonth date)) 1
                      else fst (yearMonth date))
          (if snd (yearMonth date) = Num 1 then Num 12 else jsMinus (snd (yearMonth date)) 1)"
  from assms(1) obtain s4 where
    s4: "awardHabitMonths ?ms ?first ?days ids s = Inr s4"
    and s': "s' = (if monthLoop (dayComplete s4) ?ms ?days 1
        then insertAchievement ''perfect_month'' None ?first s4 else s4)"
    unfolding awardPerfectMonth_unfold
    by (cases "awardHabitMonths ?ms ?first ?days ids s") auto
  have "set (achievements s4) \<subseteq> set (achievements s')"
    unfolding s' by (auto simp add: insertAchievement_rows)
  with assms(4) have sub: "set (achievements s4) \<subseteq> set (achievements t)"
    by blast
  from s4 assms(2,3) sub
  have t4: "awardHabitMonths ?ms ?first ?days ids t = Inr t"
    by (rule awardHabitMonths_again)
  have "habits t = habits s4" "completions t = completions s4"
    using awardHabitMonths_frame [OF s4] assms(2,3) by simp_all
  then have dc: "dayComplete t = dayComplete s4"
    by (rule dayComplete_tables)
  let ?t' = "if monthLoop (dayComplete t) ?ms ?days 1
        then insertAchievement ''perfect_month'' None ?first t else t"
  have res: "awardPerfectMonth date ids t = Inr ?t'"
    unfolding awardPerfectMonth_unfold t4 by simp
  have "globalRowsAdded t ?t'"
  proof (cases "monthLoop (dayComplete t) ?ms ?days 1")
    case True
    with dc s' assms(4)
    have "\<lparr>atype = ''perfect_month'', habit_id = None, earned_date = ?first\<rparr>
        \<in> set (achievements t)"
      by (auto simp add: insertAchievement_rows)
    with True show ?thesis by (simp add: globalRowsAdded_insert)
  next
    case False
    then show ?thesis by (simp add: globalRowsAdded_refl)
  qed
  with res show ?thesis by blast
qed

lemma awardPerfectDay_again:
  assumes "completions t = completions s"
    and "set (achievements (awardPerfectDay date ids s)) \<subseteq> set (achievements t)"
  shows "globalRowsAdded t (awardPerfectDay date ids t)"
proof (cases "list_all (\<lambda>i. (date, i) \<in> set (completions s)) ids")
  case True
  with assms(2) have "\<lparr>atype = ''perfect_day'', habit_id = None, earned_date = date\<rparr>
      \<in> set (achievements t)"
    by (auto simp add: awardPerfectDay_def insertAchievement_rows)
  with True assms(1) show ?thesis
    by (simp add: awardPerfectDay_def globalRowsAdded_insert)
next
  case False
  with assms(1) show ?thesis
    by (simp add: awardPerfectDay_def globalRowsAdded_refl)
qed

text \<open>
  What a second award pass for the same date does in general: it returns, keeps the
  per-habit rows as they are and adds only global rows that are already in the table.
\<close>

lemma second_award_adds_only_global_rows:
  assumes "checkAchievements date s = Inr s'"
  shows "\<exists>s''. checkAchievements date s' = Inr s'' \<and> globalRowsAdded s' s''"
  using assms
proof (cases rule: checkAchievements_cases)
  case idle
  then have "checkAchievements date s' = Inr s'"
    by (simp add: checkAchievements_def)
  then show ?thesis
    using globalRowsAdded_refl by blast
next
  case (run s2)
  let ?ids = "map hid (filter (\<lambda>h. activeOn h date) (habits s))"
  let ?s1 = "awardPerfectDay date ?ids s"
  let ?s3 = "awardGlobalStreaks date [7, 14, 21] s2"
  have tabs: "habits s' = habits s" "completions s' = completions s"
    using checkAchievements_frame [OF assms] by simp_all
  have f2: "habits s2 = habits s" "completions s2 = completions s"
    using awardStreaks_frame [OF run(2)] by simp_all
  have f3: "habits ?s3 = habits s" "completions ?s3 = completions s"
    using f2 by simp_all
  have g12: "set (achievements ?s1) \<subseteq> set (achievements s2)"
    using run(2) by (rule awardStreaks_grows)
  have g23: "set (achievements s2) \<subseteq> set (achievements ?s3)"
    by (rule awardGlobalStreaks_grows)
  have g34: "set (achievements ?s3) \<subseteq> set (achievements s')"
    using run(3) by (rule awardPerfectMonth_grows)
  let ?t1 = "awardPerfectDay date ?ids s'"
  have a1: "globalRowsAdded s' ?t1"
    using tabs(2) g12 g23 g34 by (intro awardPerfectDay_again) auto
  have t1: "habits ?t1 = habits s" "completions ?t1 = completions s"
    using tabs by simp_all
  have sub2: "set (achievements s2) \<subseteq> set (achievements ?t1)"
    using g23 g34 globalRowsAdded_set [OF a1] by blast
  have c1: "completions ?t1 = completions ?s1"
    using tabs(2) by simp
  from run(2) c1 sub2 have a2: "awardStreaks date ?ids ?t1 = Inr ?t1"
    by (rule awardStreaks_again)
  let ?t3 = "awardGlobalStreaks date [7, 14, 21] ?t1"
  have r3: "globalRowsAdded ?t1 ?t3"
  proof (rule awardGlobalStreaks_again)
    show "habits ?t1 = habits s2"
      by (simp only: t1 f2)
    show "completions ?t1 = completions s2"
      by (simp only: t1 f2)
    show "set (achievements ?s3) \<subseteq> set (achievements ?t1)"
      using g34 globalRowsAdded_set [OF a1] by blast
  qed
  have t3: "habits ?t3 = habits ?s3" "completions ?t3 = completions ?s3"
    using t1 f3 by simp_all
  have "\<exists>s''. awardPerfectMonth date ?ids ?t3 = Inr s'' \<and> globalRowsAdded ?t3 s''"
    using run(3) t3
  proof (rule awardPerfectMonth_again)
    show "set (achievements s') \<subseteq> set (achievements ?t3)"
      using globalRowsAdded_set [OF a1] globalRowsAdded_set [OF r3] by simp
  qed
  then obtain s'' where
    a4: "awardPerfectMonth date ?ids ?t3 = Inr s''" and r4: "globalRowsAdded ?t3 s''"
    by blast
  have "checkAchievements date s' = Inr s''"
    using run(1) a2 a4 tabs by (simp add: checkAchievements_def Let_def)
  moreover have "globalRowsAdded s' s''"
    using a1 r3 r4 by (blast intro: globalRowsAdded_trans)
  ultimately show ?thesis by blast
qed

text \<open>
  Claim C1 states that a second award pass for the same date changes nothing and that
  inserting an existing triple, a global one included, creates no duplicate row. The code
  keeps the per-habit rows (the lemma above) but not the global ones. In the scenario of
  the specification the first pass for 2024-01-07 writes the perfect day, the streak of
  A, the streak of B and the global streak; the second pass skips the rows of A and B and
  inserts the two global rows again, since a row with a NULL \<^verbatim>\<open>habit_id\<close> never violates
  the UNIQUE constraint: the table then holds the global perfect day twice.
\<close>

theorem second_award_duplicates_global_rows:
  "checkAchievements ''2024-01-07''
      \<lparr>habits = [habitA, habitB], completions = weekCompletions, achievements = []\<rparr>
    = Inr \<lparr>habits = [habitA, habitB], completions = weekCompletions, achievements = weekAwards\<rparr>
   \<and> checkAchievements ''2024-01-07''
      \<lparr>habits = [habitA, habitB], completions = weekCompletions, achievements = weekAwards\<rparr>
    = Inr \<lparr>habits = [habitA, habitB], completions = weekCompletions,
           achievements = weekAwards @
             [\<lparr>atype = ''perfect_day'', habit_id = None, earned_date = ''2024-01-07''\<rparr>,
              \<lparr>atype = ''streak_7'', habit_id = None, earned_date = ''2024-01-07''\<rparr>]\<rparr>
   \<and> count_list (weekAwards @
             [\<lparr>atype = ''perfect_day'', habit_id = None, earned_date = ''2024-01-07''\<rparr>,
              \<lparr>atype = ''streak_7'', habit_id = None, earned_date = ''2024-01-07''\<rparr>])
         \<lparr>atype = ''perfect_day'', habit_id = None, earned_date = ''2024-01-07''\<rparr> = 2"
  using week_award week_award_again by (simp add: weekAwards_def)

end
